theory Spec2Isabelle
  imports Main "HOL-Library.Word" "HOL-Library.AList"
begin

unbundle bit_operations_syntax

section \<open>The Bitcask storage engine of kvdb, embedded in HOL\<close>

text \<open>
  The development follows \<^verbatim>\<open>internal/bitcask\<close>: \<^verbatim>\<open>logfile.go\<close> (the record
  layout and one log file), \<^verbatim>\<open>bitcask.go\<close> (opening, recovery, rotation) and
  \<^verbatim>\<open>operations.go\<close> (Put, Get, Delete, Sync).

  Go values are modelled as follows.
  \<^item> \<^verbatim>\<open>uint32\<close> is \<open>32 word\<close>, so \<^verbatim>\<open>uint32(len(key))\<close> and \<^verbatim>\<open>maxID + 1\<close> wrap as they
    do in Go. \<^verbatim>\<open>int64\<close> sizes and offsets are \<open>int\<close>, and the \<^verbatim>\<open>uint64\<close> value position
    is \<open>nat\<close>: they count bytes of one file and stay far below \<open>2 ^ 63\<close>.
  \<^item> The directory of the database is an association list from file name to content.
  \<^item> \<^verbatim>\<open>*LogFile\<close> is an address into a store of \<open>LogFile\<close> records, because the active
    file and an entry of \<^verbatim>\<open>readOnlyFiles\<close> can be the same object.
  \<^item> Every call of the Go library that can return an error takes its outcome from a
    script carried by the world: the head of the script decides the next call, and an
    empty script means that no call fails any more.
\<close>

subsection \<open>Errors, outcomes and the world\<close>

type_synonym byte = "8 word"
type_synonym u32 = "32 word"

text \<open>A Go \<^verbatim>\<open>string\<close> key is the sequence of its bytes, as \<^verbatim>\<open>[]byte(key)\<close> reads it.\<close>

type_synonym key = "byte list"

datatype error =
    EOF
  | ErrUnexpectedEOF
  | ErrIO
  | ErrNotExist
  | ErrClosed
  | ErrInvalid
  | ErrNilPointer
  | ErrReadOnlyFile
  | KeyNotFound "8 word list"
  | LogFileNotFound "32 word"
  | Wrapped string error

text \<open>\<open>Fails n\<close>: the call returns an error; a write had transferred \<open>n\<close> bytes before.\<close>

datatype outcome = Succeeds | Fails nat

text \<open>\<^verbatim>\<open>bufio.Writer\<close>: the bytes accepted and not yet in the file, and its sticky error.\<close>

record Writer =
  wbuf :: "byte list"
  werr :: "error option"

record LogFile =
  id_f :: u32
  file_f :: string
  fclosed :: bool
  writer :: "Writer option"
  size_f :: int
  readOnly :: bool

record world =
  disk :: "(string \<times> byte list) list"
  heap :: "nat \<Rightarrow> LogFile"
  fresh :: nat
  script :: "outcome list"
  clock :: int

record LogEntry =
  Timestamp :: u32
  KeySize :: u32
  ValueSize :: u32
  Key :: "byte list"
  Value :: "byte list"

definition next_io :: "world \<Rightarrow> outcome \<times> world" where
  "next_io w = (case script w of [] \<Rightarrow> (Succeeds, w) | x # xs \<Rightarrow> (x, w\<lparr>script := xs\<rparr>))"

definition contents :: "world \<Rightarrow> string \<Rightarrow> byte list" where
  "contents w name = (case map_of (disk w) name of None \<Rightarrow> [] | Some d \<Rightarrow> d)"

definition append_file :: "world \<Rightarrow> string \<Rightarrow> byte list \<Rightarrow> world" where
  "append_file w name bs = w\<lparr>disk := AList.update name (contents w name @ bs) (disk w)\<rparr>"

definition set_file :: "world \<Rightarrow> nat \<Rightarrow> LogFile \<Rightarrow> world" where
  "set_file w p lf = w\<lparr>heap := (heap w)(p := lf)\<rparr>"

subsection \<open>Library calls: strings\<close>

definition HasSuffix :: "string \<Rightarrow> string \<Rightarrow> bool" where
  "HasSuffix s suffix =
     (length suffix \<le> length s \<and> drop (length s - length suffix) s = suffix)"

definition TrimSuffix :: "string \<Rightarrow> string \<Rightarrow> string" where
  "TrimSuffix s suffix = (if HasSuffix s suffix then take (length s - length suffix) s else s)"

text \<open>
  \<^verbatim>\<open>strconv.ParseUint(s, 10, 32)\<close>: decimal digits only, at least one, and a value of at
  most \<open>2 ^ 32 - 1\<close>; anything else is an error.
\<close>

definition digit_of :: "char \<Rightarrow> nat option" where
  "digit_of c = map_of (zip ''0123456789'' [0, 1, 2, 3, 4, 5, 6, 7, 8, 9]) c"

fun parse_digits :: "nat \<Rightarrow> string \<Rightarrow> nat option" where
  "parse_digits n [] = Some n"
| "parse_digits n (c # cs) =
     (case digit_of c of
        None \<Rightarrow> None
      | Some d \<Rightarrow>
          (let n1 = n * 10 + d in
           if n1 > 4294967295 then None else parse_digits n1 cs))"

definition ParseUint :: "string \<Rightarrow> nat option" where
  "ParseUint s = (if s = [] then None else parse_digits 0 s)"

text \<open>\<^verbatim>\<open>fmt.Sprintf("%010d.bitcask", id)\<close>: decimal, padded with zeros to ten places.\<close>

definition digit_char :: "nat \<Rightarrow> char" where
  "digit_char d = ''0123456789'' ! d"

fun decimal :: "nat \<Rightarrow> string" where
  "decimal n = (if n < 10 then [digit_char n] else decimal (n div 10) @ [digit_char (n mod 10)])"

declare decimal.simps [simp del]

definition file_name :: "u32 \<Rightarrow> string" where
  "file_name ident =
     (let ds = decimal (unat ident)
      in replicate (10 - length ds) (CHR ''0'') @ ds @ ''.bitcask'')"

subsection \<open>Library calls: files\<close>

text \<open>\<^verbatim>\<open>binary.LittleEndian\<close> on a \<^verbatim>\<open>uint32\<close>.\<close>

definition PutUint32 :: "u32 \<Rightarrow> byte list" where
  "PutUint32 v = [ucast v, ucast (drop_bit 8 v), ucast (drop_bit 16 v), ucast (drop_bit 24 v)]"

definition Uint32 :: "byte list \<Rightarrow> u32" where
  "Uint32 b = ucast (b ! 0) OR push_bit 8 (ucast (b ! 1)) OR push_bit 16 (ucast (b ! 2))
               OR push_bit 24 (ucast (b ! 3))"

text \<open>\<^verbatim>\<open>os.ReadDir\<close>: the names in the directory.\<close>

definition os_ReadDir :: "world \<Rightarrow> world \<times> (error + string list)" where
  "os_ReadDir w =
     (case next_io w of
        (Fails n, w1) \<Rightarrow> (w1, Inl ErrIO)
      | (Succeeds, w1) \<Rightarrow> (w1, Inr (map fst (disk w1))))"

text \<open>
  \<^verbatim>\<open>os.OpenFile\<close>: with \<open>create\<close> the flags are \<^verbatim>\<open>O_CREATE|O_RDWR|O_APPEND\<close>, without it
  \<^verbatim>\<open>O_RDONLY\<close>.
\<close>

definition os_OpenFile :: "world \<Rightarrow> string \<Rightarrow> bool \<Rightarrow> world \<times> error option" where
  "os_OpenFile w name create =
     (case next_io w of
        (Fails n, w1) \<Rightarrow> (w1, Some ErrIO)
      | (Succeeds, w1) \<Rightarrow>
          (case map_of (disk w1) name of
             Some d \<Rightarrow> (w1, None)
           | None \<Rightarrow>
               if create then (w1\<lparr>disk := disk w1 @ [(name, [])]\<rparr>, None)
               else (w1, Some ErrNotExist)))"

definition file_Stat :: "world \<Rightarrow> string \<Rightarrow> world \<times> (error + int)" where
  "file_Stat w name =
     (case next_io w of
        (Fails n, w1) \<Rightarrow> (w1, Inl ErrIO)
      | (Succeeds, w1) \<Rightarrow> (w1, Inr (int (length (contents w1 name)))))"

definition file_Sync :: "world \<Rightarrow> nat \<Rightarrow> world \<times> error option" where
  "file_Sync w p =
     (if fclosed (heap w p) then (w, Some ErrClosed)
      else case next_io w of
             (Fails n, w1) \<Rightarrow> (w1, Some ErrIO)
           | (Succeeds, w1) \<Rightarrow> (w1, None))"

definition file_Close :: "world \<Rightarrow> nat \<Rightarrow> world \<times> error option" where
  "file_Close w p =
     (if fclosed (heap w p) then (w, Some ErrClosed)
      else case next_io w of
             (Fails n, w1) \<Rightarrow> (set_file w1 p ((heap w1 p)\<lparr>fclosed := True\<rparr>), Some ErrIO)
           | (Succeeds, w1) \<Rightarrow> (set_file w1 p ((heap w1 p)\<lparr>fclosed := True\<rparr>), None))"

text \<open>
  \<^verbatim>\<open>file.ReadAt(make([]byte, n), off)\<close>: all \<open>n\<close> bytes or an error; nothing is read, and
  nothing can fail, when \<open>n = 0\<close>.
\<close>

definition file_ReadAt :: "world \<Rightarrow> nat \<Rightarrow> nat \<Rightarrow> int \<Rightarrow> world \<times> (error + byte list)" where
  "file_ReadAt w p n off =
     (if fclosed (heap w p) then (w, Inl ErrClosed)
      else if off < 0 then (w, Inl ErrInvalid)
      else if n = 0 then (w, Inr [])
      else case next_io w of
             (Fails m, w1) \<Rightarrow> (w1, Inl ErrIO)
           | (Succeeds, w1) \<Rightarrow>
               (let d = contents w1 (file_f (heap w1 p)) in
                if nat off + n \<le> length d then (w1, Inr (take n (drop (nat off) d)))
                else (w1, Inl EOF)))"

definition file_Seek :: "world \<Rightarrow> nat \<Rightarrow> int \<Rightarrow> world \<times> error option" where
  "file_Seek w p pos =
     (if fclosed (heap w p) then (w, Some ErrClosed)
      else if pos < 0 then (w, Some ErrInvalid)
      else case next_io w of
             (Fails n, w1) \<Rightarrow> (w1, Some ErrIO)
           | (Succeeds, w1) \<Rightarrow> (w1, None))"

text \<open>
  \<^verbatim>\<open>io.ReadFull\<close> on the \<^verbatim>\<open>bufio.Reader\<close> of the file, which stands at offset \<open>at\<close>: all
  \<open>n\<close> bytes, or \<^verbatim>\<open>io.EOF\<close> when no byte is left, or \<^verbatim>\<open>io.ErrUnexpectedEOF\<close> when fewer
  than \<open>n\<close> are; \<^verbatim>\<open>binary.Read\<close> of a \<^verbatim>\<open>uint32\<close> is this call with \<open>n = 4\<close>.
\<close>

definition io_ReadFull :: "world \<Rightarrow> nat \<Rightarrow> nat \<Rightarrow> nat \<Rightarrow> world \<times> (error + byte list)" where
  "io_ReadFull w p at n =
     (if n = 0 then (w, Inr [])
      else case next_io w of
             (Fails m, w1) \<Rightarrow> (w1, Inl ErrIO)
           | (Succeeds, w1) \<Rightarrow>
               (let rest = drop at (contents w1 (file_f (heap w1 p))) in
                if n \<le> length rest then (w1, Inr (take n rest))
                else if rest = [] then (w1, Inl EOF)
                else (w1, Inl ErrUnexpectedEOF)))"

text \<open>
  \<^verbatim>\<open>bufio.Writer.Write\<close>: after an error every call returns it. Otherwise the bytes are
  accepted; when the call fails, it is a write to the file that failed, after \<open>n\<close> of the
  pending bytes had reached the file.
\<close>

definition writer_Write :: "world \<Rightarrow> nat \<Rightarrow> byte list \<Rightarrow> world \<times> error option" where
  "writer_Write w p bs =
     (case writer (heap w p) of
        None \<Rightarrow> (w, Some ErrNilPointer)
      | Some wr \<Rightarrow>
          (case werr wr of
             Some e \<Rightarrow> (w, Some e)
           | None \<Rightarrow>
               (case next_io w of
                  (Succeeds, w1) \<Rightarrow>
                    (set_file w1 p ((heap w1 p)\<lparr>writer := Some (wr\<lparr>wbuf := wbuf wr @ bs\<rparr>)\<rparr>), None)
                | (Fails n, w1) \<Rightarrow>
                    (set_file (append_file w1 (file_f (heap w1 p)) (take n (wbuf wr @ bs))) p
                       ((heap w1 p)\<lparr>writer :=
                          Some (wr\<lparr>wbuf := drop n (wbuf wr @ bs), werr := Some ErrIO\<rparr>)\<rparr>),
                     Some ErrIO))))"

text \<open>\<^verbatim>\<open>bufio.Writer.Flush\<close>: nothing to do on an empty buffer.\<close>

definition writer_Flush :: "world \<Rightarrow> nat \<Rightarrow> world \<times> error option" where
  "writer_Flush w p =
     (case writer (heap w p) of
        None \<Rightarrow> (w, Some ErrNilPointer)
      | Some wr \<Rightarrow>
          (case werr wr of
             Some e \<Rightarrow> (w, Some e)
           | None \<Rightarrow>
               if wbuf wr = [] then (w, None)
               else if fclosed (heap w p)
               then (set_file w p ((heap w p)\<lparr>writer := Some (wr\<lparr>werr := Some ErrClosed\<rparr>)\<rparr>),
                     Some ErrClosed)
               else
                 (case next_io w of
                    (Succeeds, w1) \<Rightarrow>
                      (set_file (append_file w1 (file_f (heap w1 p)) (wbuf wr)) p
                         ((heap w1 p)\<lparr>writer := Some (wr\<lparr>wbuf := []\<rparr>)\<rparr>), None)
                  | (Fails n, w1) \<Rightarrow>
                      (set_file (append_file w1 (file_f (heap w1 p)) (take n (wbuf wr))) p
                         ((heap w1 p)\<lparr>writer :=
                            Some (wr\<lparr>wbuf := drop n (wbuf wr), werr := Some ErrIO\<rparr>)\<rparr>),
                       Some ErrIO))))"

subsection \<open>logfile.go\<close>

definition NewLogFile :: "world \<Rightarrow> u32 \<Rightarrow> bool \<Rightarrow> world \<times> (error + nat)" where
  "NewLogFile w ident ro =
     (let filename = file_name ident in
      case os_OpenFile w filename (\<not> ro) of
        (w1, Some e) \<Rightarrow> (w1, Inl (Wrapped ''failed to open log file'' e))
      | (w1, None) \<Rightarrow>
          (case file_Stat w1 filename of
             (w2, Inl e) \<Rightarrow> (snd (next_io w2), Inl (Wrapped ''failed to stat log file'' e))
           | (w2, Inr sz) \<Rightarrow>
               (let logFile = \<lparr>id_f = ident, file_f = filename, fclosed = False,
                                writer = (if ro then None
                                          else Some \<lparr>wbuf = [], werr = None\<rparr>),
                                size_f = sz, readOnly = ro\<rparr>;
                    p = fresh w2
                in (w2\<lparr>heap := (heap w2)(p := logFile), fresh := Suc p\<rparr>, Inr p))))"

definition LogFile_Sync :: "world \<Rightarrow> nat \<Rightarrow> world \<times> error option" where
  "LogFile_Sync w p =
     (if readOnly (heap w p) then (w, None)
      else case writer_Flush w p of
             (w1, Some e) \<Rightarrow> (w1, Some e)
           | (w1, None) \<Rightarrow> file_Sync w1 p)"

definition LogFile_Flush :: "world \<Rightarrow> nat \<Rightarrow> world \<times> error option" where
  "LogFile_Flush w p =
     (if readOnly (heap w p) \<or> writer (heap w p) = None then (w, None)
      else writer_Flush w p)"

definition LogFile_Close :: "world \<Rightarrow> nat \<Rightarrow> world \<times> error option" where
  "LogFile_Close w p =
     (if \<not> readOnly (heap w p) \<and> writer (heap w p) \<noteq> None
      then (case writer_Flush w p of
              (w1, Some e) \<Rightarrow> (w1, Some e)
            | (w1, None) \<Rightarrow> file_Close w1 p)
      else file_Close w p)"

definition LogFile_Write :: "world \<Rightarrow> nat \<Rightarrow> LogEntry \<Rightarrow> world \<times> (error + nat)" where
  "LogFile_Write w p entry =
     (if readOnly (heap w p) then (w, Inl ErrReadOnlyFile)
      else
        let entrySize = 4 + 4 + 4 + int (length (Key entry)) + int (length (Value entry)) in
        case writer_Write w p (PutUint32 (Timestamp entry)) of
          (w1, Some e) \<Rightarrow> (w1, Inl e)
        | (w1, None) \<Rightarrow>
        case writer_Write w1 p (PutUint32 (KeySize entry)) of
          (w2, Some e) \<Rightarrow> (w2, Inl e)
        | (w2, None) \<Rightarrow>
        case writer_Write w2 p (PutUint32 (ValueSize entry)) of
          (w3, Some e) \<Rightarrow> (w3, Inl e)
        | (w3, None) \<Rightarrow>
        case writer_Write w3 p (Key entry) of
          (w4, Some e) \<Rightarrow> (w4, Inl e)
        | (w4, None) \<Rightarrow>
        case writer_Write w4 p (Value entry) of
          (w5, Some e) \<Rightarrow> (w5, Inl e)
        | (w5, None) \<Rightarrow>
            (let valuePos = size_f (heap w5 p) + 12 + int (length (Key entry))
             in (set_file w5 p ((heap w5 p)\<lparr>size_f := size_f (heap w5 p) + entrySize\<rparr>),
                 Inr (nat valuePos))))"

definition LogFile_Read :: "world \<Rightarrow> nat \<Rightarrow> nat \<Rightarrow> u32 \<Rightarrow> world \<times> (error + byte list)" where
  "LogFile_Read w p valuePos valueSize =
     (case file_ReadAt w p (unat valueSize) (int valuePos) of
        (w1, Inl e) \<Rightarrow> (w1, Inl (Wrapped ''failed to read value at position'' e))
      | (w1, Inr v) \<Rightarrow> (w1, Inr v))"

definition ReadEntry :: "world \<Rightarrow> nat \<Rightarrow> int \<Rightarrow> world \<times> (error + LogEntry \<times> int)" where
  "ReadEntry w p pos =
     (case file_Seek w p pos of
        (w0, Some e) \<Rightarrow> (w0, Inl e)
      | (w0, None) \<Rightarrow>
     (case io_ReadFull w0 p (nat pos) 4 of
        (w1, Inl e) \<Rightarrow> (w1, Inl e)
      | (w1, Inr b1) \<Rightarrow>
     (case io_ReadFull w1 p (nat pos + 4) 4 of
        (w2, Inl e) \<Rightarrow> (w2, Inl e)
      | (w2, Inr b2) \<Rightarrow>
     (case io_ReadFull w2 p (nat pos + 8) 4 of
        (w3, Inl e) \<Rightarrow> (w3, Inl e)
      | (w3, Inr b3) \<Rightarrow>
     (let timestamp = Uint32 b1; keySize = Uint32 b2; valueSize = Uint32 b3 in
      case io_ReadFull w3 p (nat pos + 12) (unat keySize) of
        (w4, Inl e) \<Rightarrow> (w4, Inl e)
      | (w4, Inr key) \<Rightarrow>
     (case io_ReadFull w4 p (nat pos + 12 + unat keySize) (unat valueSize) of
        (w5, Inl e) \<Rightarrow> (w5, Inl e)
      | (w5, Inr val) \<Rightarrow>
          (w5, Inr (\<lparr>Timestamp = timestamp, KeySize = keySize, ValueSize = valueSize,
                     Key = key, Value = val\<rparr>,
                    pos + 12 + uint keySize + uint valueSize))))))))"

subsection \<open>bitcask.go\<close>

record KeyDirEntry =
  FileID :: u32
  ValueSize_k :: u32
  ValuePos :: nat
  Timestamp_k :: u32

record Config =
  MaxFileSize :: int
  SyncWrites :: bool
  CompactionInterval :: int

definition DefaultConfig :: Config where
  "DefaultConfig =
     \<lparr>MaxFileSize = 1024 * 1024 * 1024, SyncWrites = False,
      CompactionInterval = 600000000000\<rparr>"

record Bitcask =
  keyDir :: "key \<rightharpoonup> KeyDirEntry"
  activeFile :: "nat option"
  readOnlyFiles :: "(u32 \<times> nat) list"
  config :: Config

text \<open>What \<open>ReadEntry\<close> and the calls under it leave as they were.\<close>

definition same_store :: "world \<Rightarrow> world \<Rightarrow> bool" where
  "same_store w w1 \<longleftrightarrow>
     disk w1 = disk w \<and> heap w1 = heap w \<and> fresh w1 = fresh w \<and> clock w1 = clock w"

lemma same_store_refl [simp]: "same_store w w"
  by (simp add: same_store_def)

lemma same_store_trans: "same_store w w1 \<Longrightarrow> same_store w1 w2 \<Longrightarrow> same_store w w2"
  by (simp add: same_store_def)

lemma same_store_contents: "same_store w w1 \<Longrightarrow> contents w1 name = contents w name"
  by (simp add: same_store_def contents_def)

lemma next_io_same: "next_io w = (x, w1) \<Longrightarrow> same_store w w1"
  by (auto simp: next_io_def same_store_def split: list.splits)

lemma file_Seek_None:
  "file_Seek w p pos = (w1, None) \<Longrightarrow> same_store w w1 \<and> 0 \<le> pos \<and> \<not> fclosed (heap w p)"
  by (auto simp: file_Seek_def split: if_splits prod.splits outcome.splits dest: next_io_same)

lemma io_ReadFull_Inr:
  assumes "io_ReadFull w p at n = (w1, Inr bs)"
  shows "same_store w w1"
    and "bs = take n (drop at (contents w (file_f (heap w p))))"
    and "n = 0 \<or> at + n \<le> length (contents w (file_f (heap w p)))"
proof -
  have "same_store w w1 \<and> bs = take n (drop at (contents w (file_f (heap w p)))) \<and>
     (n = 0 \<or> at + n \<le> length (contents w (file_f (heap w p))))"
  proof (cases "n = 0")
    case True
    with assms show ?thesis by (simp add: io_ReadFull_def)
  next
    case False
    obtain x w' where n: "next_io w = (x, w')" by (cases "next_io w")
    have s: "same_store w w'" using n by (rule next_io_same)
    from assms False n have x: "x = Succeeds"
      by (cases x) (simp_all add: io_ReadFull_def)
    from s have c: "contents w' (file_f (heap w' p)) = contents w (file_f (heap w p))"
      by (simp add: same_store_def contents_def)
    from assms False n x c show ?thesis
      using s by (auto simp: io_ReadFull_def Let_def split: if_splits)
  qed
  then show "same_store w w1"
    and "bs = take n (drop at (contents w (file_f (heap w p))))"
    and "n = 0 \<or> at + n \<le> length (contents w (file_f (heap w p)))"
    by simp_all
qed

text \<open>A successful \<open>ReadEntry\<close>, step by step.\<close>

lemma ReadEntry_Inr_steps:
  assumes "ReadEntry w p pos = (w1, Inr (entry, nextPos))"
  obtains w0 wa wb wc wd b1 b2 b3 k v where
    "file_Seek w p pos = (w0, None)"
    "io_ReadFull w0 p (nat pos) 4 = (wa, Inr b1)"
    "io_ReadFull wa p (nat pos + 4) 4 = (wb, Inr b2)"
    "io_ReadFull wb p (nat pos + 8) 4 = (wc, Inr b3)"
    "io_ReadFull wc p (nat pos + 12) (unat (Uint32 b2)) = (wd, Inr k)"
    "io_ReadFull wd p (nat pos + 12 + unat (Uint32 b2)) (unat (Uint32 b3)) = (w1, Inr v)"
    "entry = \<lparr>Timestamp = Uint32 b1, KeySize = Uint32 b2, ValueSize = Uint32 b3,
              Key = k, Value = v\<rparr>"
    "nextPos = pos + 12 + uint (Uint32 b2) + uint (Uint32 b3)"
proof -
  from assms obtain w0 where s0: "file_Seek w p pos = (w0, None)"
    by (auto simp: ReadEntry_def split: prod.splits option.splits)
  from assms s0 obtain wa b1 where r1: "io_ReadFull w0 p (nat pos) 4 = (wa, Inr b1)"
    by (auto simp: ReadEntry_def split: prod.splits sum.splits)
  from assms s0 r1 obtain wb b2 where r2: "io_ReadFull wa p (nat pos + 4) 4 = (wb, Inr b2)"
    by (auto simp: ReadEntry_def split: prod.splits sum.splits)
  from assms s0 r1 r2 obtain wc b3 where r3: "io_ReadFull wb p (nat pos + 8) 4 = (wc, Inr b3)"
    by (auto simp: ReadEntry_def split: prod.splits sum.splits)
  from assms s0 r1 r2 r3 obtain wd k where
    r4: "io_ReadFull wc p (nat pos + 12) (unat (Uint32 b2)) = (wd, Inr k)"
    by (auto simp: ReadEntry_def Let_def split: prod.splits sum.splits)
  from assms s0 r1 r2 r3 r4 obtain v where
    r5: "io_ReadFull wd p (nat pos + 12 + unat (Uint32 b2)) (unat (Uint32 b3)) = (w1, Inr v)"
    and en: "entry = \<lparr>Timestamp = Uint32 b1, KeySize = Uint32 b2, ValueSize = Uint32 b3,
              Key = k, Value = v\<rparr>"
    and np: "nextPos = pos + 12 + uint (Uint32 b2) + uint (Uint32 b3)"
    by (auto simp: ReadEntry_def Let_def split: prod.splits sum.splits)
  from s0 r1 r2 r3 r4 r5 en np show ?thesis by (rule that)
qed

lemma ReadEntry_Inr:
  assumes "ReadEntry w p pos = (w1, Inr (entry, nextPos))"
  shows "same_store w w1" and "0 \<le> pos" and "pos < nextPos"
    and "nextPos \<le> int (length (contents w (file_f (heap w p))))"
proof -
  from assms obtain w0 wa wb wc wd b1 b2 b3 k v where
    s0: "file_Seek w p pos = (w0, None)" and
    r1: "io_ReadFull w0 p (nat pos) 4 = (wa, Inr b1)" and
    r2: "io_ReadFull wa p (nat pos + 4) 4 = (wb, Inr b2)" and
    r3: "io_ReadFull wb p (nat pos + 8) 4 = (wc, Inr b3)" and
    r4: "io_ReadFull wc p (nat pos + 12) (unat (Uint32 b2)) = (wd, Inr k)" and
    r5: "io_ReadFull wd p (nat pos + 12 + unat (Uint32 b2)) (unat (Uint32 b3)) = (w1, Inr v)" and
    np: "nextPos = pos + 12 + uint (Uint32 b2) + uint (Uint32 b3)"
    by (rule ReadEntry_Inr_steps)
  have e0: "same_store w w0" using file_Seek_None [OF s0] by simp
  have ea: "same_store w wa" using e0 io_ReadFull_Inr(1) [OF r1] by (rule same_store_trans)
  have eb: "same_store w wb" using ea io_ReadFull_Inr(1) [OF r2] by (rule same_store_trans)
  have ec: "same_store w wc" using eb io_ReadFull_Inr(1) [OF r3] by (rule same_store_trans)
  have ed: "same_store w wd" using ec io_ReadFull_Inr(1) [OF r4] by (rule same_store_trans)
  show "same_store w w1" using ed io_ReadFull_Inr(1) [OF r5] by (rule same_store_trans)
  show p0: "0 \<le> pos" using file_Seek_None [OF s0] by simp
  show "pos < nextPos"
    using np uint_nonnegative [of "Uint32 b2"] uint_nonnegative [of "Uint32 b3"] by linarith
  define n where "n = length (contents w (file_f (heap w p)))"
  have c: "length (contents w' (file_f (heap w' p))) = n" if "same_store w w'" for w'
    using that by (simp add: same_store_def contents_def n_def)
  have h: "nat pos + 12 \<le> n" using io_ReadFull_Inr(3) [OF r3] c [OF eb] by simp
  have k: "nat pos + 12 + unat (Uint32 b2) \<le> n"
    using io_ReadFull_Inr(3) [OF r4] c [OF ec] h by auto
  have v: "nat pos + 12 + unat (Uint32 b2) + unat (Uint32 b3) \<le> n"
    using io_ReadFull_Inr(3) [OF r5] c [OF ed] k by auto
  have "nextPos = int (nat pos + 12 + unat (Uint32 b2) + unat (Uint32 b3))"
    using np p0 uint_nat [of "Uint32 b2"] uint_nat [of "Uint32 b3"] by linarith
  then show "nextPos \<le> int (length (contents w (file_f (heap w p))))"
    using v unfolding n_def by linarith
qed

text \<open>
  The loop of \<^verbatim>\<open>rebuildKeyDir\<close>, from offset \<open>pos\<close>. The test \<^verbatim>\<open>err.Error() == "EOF"\<close>
  holds of \<^verbatim>\<open>io.EOF\<close> alone: \<^verbatim>\<open>io.ErrUnexpectedEOF\<close> reads "unexpected EOF".
\<close>

function rebuildKeyDir_from ::
  "world \<Rightarrow> (key \<rightharpoonup> KeyDirEntry) \<Rightarrow> nat \<Rightarrow> int \<Rightarrow> world \<times> (key \<rightharpoonup> KeyDirEntry) \<times> error option"
where
  "rebuildKeyDir_from w kd p pos =
     (case ReadEntry w p pos of
        (w1, Inl e) \<Rightarrow> if e = EOF then (w1, kd, None) else (w1, kd, Some e)
      | (w1, Inr (entry, nextPos)) \<Rightarrow>
          (let k = Key entry;
               kd1 = (if ValueSize entry = 0 then kd(k := None)
                      else kd(k \<mapsto> \<lparr>FileID = id_f (heap w1 p), ValueSize_k = ValueSize entry,
                                     ValuePos = nat (pos + 12 + uint (KeySize entry)),
                                     Timestamp_k = Timestamp entry\<rparr>))
           in rebuildKeyDir_from w1 kd1 p nextPos))"
  by pat_completeness auto
termination
proof (relation "measure (\<lambda>(w, kd, p, pos). nat (int (length (contents w (file_f (heap w p)))) - pos))", goal_cases)
  case 1
  show ?case by simp
next
  case (2 w kd p pos w1 y b entry nextPos k kd1)
  then have r: "ReadEntry w p pos = (w1, Inr (entry, nextPos))" by simp
  have "contents w1 (file_f (heap w1 p)) = contents w (file_f (heap w p))"
    using ReadEntry_Inr(1) [OF r] by (simp add: same_store_def contents_def)
  then show ?case
    using ReadEntry_Inr(2,3,4) [OF r] by simp
qed

declare rebuildKeyDir_from.simps [simp del]

definition rebuildKeyDir :: "world \<Rightarrow> Bitcask \<Rightarrow> nat \<Rightarrow> world \<times> Bitcask \<times> error option" where
  "rebuildKeyDir w bc logFile =
     (case rebuildKeyDir_from w (keyDir bc) logFile 0 of
        (w1, kd, r) \<Rightarrow> (w1, bc\<lparr>keyDir := kd\<rparr>, r))"

text \<open>
  \<^verbatim>\<open>loadFiles\<close>: the ids of the names that end in \<^verbatim>\<open>.bitcask\<close> and parse, sorted, and then
  one read-only log file and one replay for each. The directory of the model holds
  regular files only.
\<close>

definition fileIDs_of :: "string list \<Rightarrow> u32 list" where
  "fileIDs_of names =
     concat (map (\<lambda>name.
       if HasSuffix name ''.bitcask''
       then (case ParseUint (TrimSuffix name ''.bitcask'') of
               None \<Rightarrow> []
             | Some n \<Rightarrow> [of_nat n])
       else []) names)"

fun loadFiles_loop :: "world \<Rightarrow> Bitcask \<Rightarrow> u32 list \<Rightarrow> world \<times> Bitcask \<times> error option" where
  "loadFiles_loop w bc [] = (w, bc, None)"
| "loadFiles_loop w bc (ident # ids) =
     (case NewLogFile w ident True of
        (w1, Inl e) \<Rightarrow> (w1, bc, Some e)
      | (w1, Inr logFile) \<Rightarrow>
          (case rebuildKeyDir w1
                  (bc\<lparr>readOnlyFiles := AList.update ident logFile (readOnlyFiles bc)\<rparr>) logFile of
             (w2, bc2, Some e) \<Rightarrow> (w2, bc2, Some e)
           | (w2, bc2, None) \<Rightarrow> loadFiles_loop w2 bc2 ids))"

definition loadFiles :: "world \<Rightarrow> Bitcask \<Rightarrow> world \<times> Bitcask \<times> error option" where
  "loadFiles w bc =
     (case os_ReadDir w of
        (w1, Inl e) \<Rightarrow> (w1, bc, Some e)
      | (w1, Inr files) \<Rightarrow> loadFiles_loop w1 bc (sort (fileIDs_of files)))"

definition max_id :: "(u32 \<times> nat) list \<Rightarrow> u32" where
  "max_id ro = fold (\<lambda>(ident, lf) maxID. if ident > maxID then ident else maxID) ro 0"

definition createActiveFile :: "world \<Rightarrow> Bitcask \<Rightarrow> world \<times> Bitcask \<times> error option" where
  "createActiveFile w bc =
     (let maxID = max_id (readOnlyFiles bc);
          nextID = maxID + 1
      in case NewLogFile w nextID False of
           (w1, Inl e) \<Rightarrow> (w1, bc, Some e)
         | (w1, Inr a) \<Rightarrow> (w1, bc\<lparr>activeFile := Some a\<rparr>, None))"

definition rotateActiveFile :: "world \<Rightarrow> Bitcask \<Rightarrow> world \<times> Bitcask \<times> error option" where
  "rotateActiveFile w bc =
     (case activeFile bc of
        None \<Rightarrow> (w, bc, Some ErrNilPointer)
      | Some a \<Rightarrow>
          (case LogFile_Sync w a of
             (w1, Some e) \<Rightarrow> (w1, bc, Some e)
           | (w1, None) \<Rightarrow>
               createActiveFile w1
                 (bc\<lparr>readOnlyFiles := AList.update (id_f (heap w1 a)) a (readOnlyFiles bc)\<rparr>)))"

definition os_MkdirAll :: "world \<Rightarrow> world \<times> error option" where
  "os_MkdirAll w =
     (case next_io w of
        (Fails n, w1) \<Rightarrow> (w1, Some ErrIO)
      | (Succeeds, w1) \<Rightarrow> (w1, None))"

definition Open :: "world \<Rightarrow> Config option \<Rightarrow> world \<times> (error + Bitcask)" where
  "Open w cfg0 =
     (let cfg = (case cfg0 of None \<Rightarrow> DefaultConfig | Some c \<Rightarrow> c) in
      case os_MkdirAll w of
        (w0, Some e) \<Rightarrow> (w0, Inl (Wrapped ''failed to create directory'' e))
      | (w0, None) \<Rightarrow>
          (case loadFiles w0 \<lparr>keyDir = Map.empty, activeFile = None, readOnlyFiles = [],
                              config = cfg\<rparr> of
             (w1, bc1, Some e) \<Rightarrow> (w1, Inl (Wrapped ''failed to load existing files'' e))
           | (w1, bc1, None) \<Rightarrow>
               (case createActiveFile w1 bc1 of
                  (w2, bc2, Some e) \<Rightarrow> (w2, Inl (Wrapped ''failed to create active file'' e))
                | (w2, bc2, None) \<Rightarrow> (w2, Inr bc2))))"

fun close_files :: "world \<Rightarrow> nat list \<Rightarrow> world \<times> error option" where
  "close_files w [] = (w, None)"
| "close_files w (f # fs) =
     (case LogFile_Close w f of
        (w1, Some e) \<Rightarrow> (w1, Some (Wrapped ''failed to close read-only file'' e))
      | (w1, None) \<Rightarrow> close_files w1 fs)"

definition Close :: "world \<Rightarrow> Bitcask \<Rightarrow> world \<times> error option" where
  "Close w bc =
     (case (case activeFile bc of None \<Rightarrow> (w, None) | Some a \<Rightarrow> LogFile_Close w a) of
        (w1, Some e) \<Rightarrow> (w1, Some (Wrapped ''failed to close active file'' e))
      | (w1, None) \<Rightarrow> close_files w1 (map snd (readOnlyFiles bc)))"

definition Keys :: "Bitcask \<Rightarrow> key set" where
  "Keys bc = dom (keyDir bc)"

subsection \<open>operations.go\<close>

text \<open>Sync when configured, a flush otherwise: the step shared by Put and Delete.\<close>

definition sync_or_flush :: "world \<Rightarrow> Bitcask \<Rightarrow> nat \<Rightarrow> world \<times> error option" where
  "sync_or_flush w bc a =
     (if SyncWrites (config bc)
      then (case LogFile_Sync w a of
              (w1, Some e) \<Rightarrow> (w1, Some (Wrapped ''failed to sync'' e))
            | (w1, None) \<Rightarrow> (w1, None))
      else (case LogFile_Flush w a of
              (w1, Some e) \<Rightarrow> (w1, Some (Wrapped ''failed to flush'' e))
            | (w1, None) \<Rightarrow> (w1, None)))"

definition Put :: "world \<Rightarrow> Bitcask \<Rightarrow> key \<Rightarrow> byte list \<Rightarrow> world \<times> Bitcask \<times> error option" where
  "Put w bc k v =
     (case activeFile bc of
        None \<Rightarrow> (w, bc, Some ErrNilPointer)
      | Some a0 \<Rightarrow>
     (case (if size_f (heap w a0) \<ge> MaxFileSize (config bc) then rotateActiveFile w bc
            else (w, bc, None)) of
        (w1, bc1, Some e) \<Rightarrow> (w1, bc1, Some (Wrapped ''failed to rotate active file'' e))
      | (w1, bc1, None) \<Rightarrow>
     (case activeFile bc1 of
        None \<Rightarrow> (w1, bc1, Some ErrNilPointer)
      | Some a \<Rightarrow>
     (let entry = \<lparr>Timestamp = word_of_int (clock w1), KeySize = of_nat (length k),
                   ValueSize = of_nat (length v), Key = k, Value = v\<rparr> in
      case LogFile_Write w1 a entry of
        (w2, Inl e) \<Rightarrow> (w2, bc1, Some (Wrapped ''failed to write entry'' e))
      | (w2, Inr valuePos) \<Rightarrow>
     (case sync_or_flush w2 bc1 a of
        (w3, Some e) \<Rightarrow> (w3, bc1, Some e)
      | (w3, None) \<Rightarrow>
          (w3, bc1\<lparr>keyDir := (keyDir bc1)(k \<mapsto>
                    \<lparr>FileID = id_f (heap w3 a), ValueSize_k = ValueSize entry,
                     ValuePos = valuePos, Timestamp_k = Timestamp entry\<rparr>)\<rparr>, None))))))"

definition Get :: "world \<Rightarrow> Bitcask \<Rightarrow> key \<Rightarrow> world \<times> (error + byte list)" where
  "Get w bc k =
     (case keyDir bc k of
        None \<Rightarrow> (w, Inl (KeyNotFound k))
      | Some keyDirEntry \<Rightarrow>
     (case activeFile bc of
        None \<Rightarrow> (w, Inl ErrNilPointer)
      | Some a \<Rightarrow>
     (case (if FileID keyDirEntry = id_f (heap w a) then Some a
            else map_of (readOnlyFiles bc) (FileID keyDirEntry)) of
        None \<Rightarrow> (w, Inl (LogFileNotFound (FileID keyDirEntry)))
      | Some logFile \<Rightarrow>
     (case LogFile_Read w logFile (ValuePos keyDirEntry) (ValueSize_k keyDirEntry) of
        (w1, Inl e) \<Rightarrow> (w1, Inl (Wrapped ''failed to read value'' e))
      | (w1, Inr v) \<Rightarrow> (w1, Inr v)))))"

definition Delete :: "world \<Rightarrow> Bitcask \<Rightarrow> key \<Rightarrow> world \<times> Bitcask \<times> error option" where
  "Delete w bc k =
     (case keyDir bc k of
        None \<Rightarrow> (w, bc, Some (KeyNotFound k))
      | Some old \<Rightarrow>
     (case activeFile bc of
        None \<Rightarrow> (w, bc, Some ErrNilPointer)
      | Some a \<Rightarrow>
     (let entry = \<lparr>Timestamp = word_of_int (clock w), KeySize = of_nat (length k),
                   ValueSize = 0, Key = k, Value = []\<rparr> in
      case LogFile_Write w a entry of
        (w1, Inl e) \<Rightarrow> (w1, bc, Some (Wrapped ''failed to write tombstone'' e))
      | (w1, Inr valuePos) \<Rightarrow>
     (case sync_or_flush w1 bc a of
        (w2, Some e) \<Rightarrow> (w2, bc, Some e)
      | (w2, None) \<Rightarrow> (w2, bc\<lparr>keyDir := (keyDir bc)(k := None)\<rparr>, None)))))"

definition Sync :: "world \<Rightarrow> Bitcask \<Rightarrow> world \<times> error option" where
  "Sync w bc = (case activeFile bc of None \<Rightarrow> (w, None) | Some a \<Rightarrow> LogFile_Sync w a)"


subsection \<open>The record layout\<close>

lemma Uint32_PutUint32: "Uint32 (PutUint32 v) = v"
  unfolding Uint32_def PutUint32_def
  apply (rule bit_word_eqI)
  apply (auto simp add: bit_simps)
  apply (rule ccontr)
  apply simp
  done

lemma length_PutUint32 [simp]: "length (PutUint32 v) = 4"
  by (simp add: PutUint32_def)

subsection \<open>Reading and writing when no call fails\<close>

definition reliable :: "world \<Rightarrow> bool" where
  "reliable w \<longleftrightarrow> script w = []"

lemma next_io_reliable [simp]: "reliable w \<Longrightarrow> next_io w = (Succeeds, w)"
  by (simp add: reliable_def next_io_def)

definition encode :: "LogEntry \<Rightarrow> byte list" where
  "encode e = PutUint32 (Timestamp e) @ PutUint32 (KeySize e) @ PutUint32 (ValueSize e) @ Key e @ Value e"

definition read_full :: "byte list \<Rightarrow> nat \<Rightarrow> nat \<Rightarrow> error + byte list" where
  "read_full d at n =
     (if n = 0 then Inr []
      else if n \<le> length (drop at d) then Inr (take n (drop at d))
      else if drop at d = [] then Inl EOF else Inl ErrUnexpectedEOF)"

definition decode_at :: "byte list \<Rightarrow> nat \<Rightarrow> error + LogEntry \<times> nat" where
  "decode_at d pos =
     (case read_full d pos 4 of Inl e \<Rightarrow> Inl e | Inr b1 \<Rightarrow>
     (case read_full d (pos + 4) 4 of Inl e \<Rightarrow> Inl e | Inr b2 \<Rightarrow>
     (case read_full d (pos + 8) 4 of Inl e \<Rightarrow> Inl e | Inr b3 \<Rightarrow>
     (case read_full d (pos + 12) (unat (Uint32 b2)) of Inl e \<Rightarrow> Inl e | Inr k \<Rightarrow>
     (case read_full d (pos + 12 + unat (Uint32 b2)) (unat (Uint32 b3)) of Inl e \<Rightarrow> Inl e | Inr v \<Rightarrow>
        Inr (\<lparr>Timestamp = Uint32 b1, KeySize = Uint32 b2, ValueSize = Uint32 b3, Key = k, Value = v\<rparr>,
             pos + 12 + unat (Uint32 b2) + unat (Uint32 b3)))))))"

lemma io_ReadFull_reliable:
  "reliable w \<Longrightarrow> io_ReadFull w p at n =
     (w, read_full (contents w (file_f (heap w p))) at n)"
  by (simp add: io_ReadFull_def read_full_def Let_def)

lemma file_Seek_reliable:
  "reliable w \<Longrightarrow> \<not> fclosed (heap w p) \<Longrightarrow> 0 \<le> pos \<Longrightarrow> file_Seek w p pos = (w, None)"
  by (simp add: file_Seek_def)

lemma ReadEntry_reliable:
  assumes "reliable w" and "\<not> fclosed (heap w p)" and "0 \<le> pos"
  shows "ReadEntry w p pos =
     (w, case decode_at (contents w (file_f (heap w p))) (nat pos) of
           Inl e \<Rightarrow> Inl e
         | Inr (entry, n) \<Rightarrow> Inr (entry, int n))"
  using assms
  by (simp add: ReadEntry_def file_Seek_reliable io_ReadFull_reliable decode_at_def Let_def
      split: sum.splits)

definition wf_entry :: "LogEntry \<Rightarrow> bool" where
  "wf_entry e \<longleftrightarrow> unat (KeySize e) = length (Key e) \<and> unat (ValueSize e) = length (Value e)"

lemma length_encode:
  "length (encode e) = 12 + length (Key e) + length (Value e)"
  by (simp add: encode_def)

lemma read_full_middle:
  "read_full (a @ b @ c) (length a) (length b) = Inr b"
  by (simp add: read_full_def)

lemma decode_at_encode:
  assumes "wf_entry e"
  shows "decode_at (pre @ encode e @ post) (length pre) = Inr (e, length pre + length (encode e))"
proof -
  let ?t = "PutUint32 (Timestamp e)" and ?k = "PutUint32 (KeySize e)"
    and ?v = "PutUint32 (ValueSize e)"
  let ?d = "pre @ encode e @ post"
  have r1: "read_full ?d (length pre) 4 = Inr ?t"
    using read_full_middle [of pre ?t "?k @ ?v @ Key e @ Value e @ post"]
    by (simp add: encode_def)
  have r2: "read_full ?d (length pre + 4) 4 = Inr ?k"
    using read_full_middle [of "pre @ ?t" ?k "?v @ Key e @ Value e @ post"]
    by (simp add: encode_def)
  have r3: "read_full ?d (length pre + 8) 4 = Inr ?v"
    using read_full_middle [of "pre @ ?t @ ?k" ?v "Key e @ Value e @ post"]
    by (simp add: encode_def)
  have r4: "read_full ?d (length pre + 12) (length (Key e)) = Inr (Key e)"
    using read_full_middle [of "pre @ ?t @ ?k @ ?v" "Key e" "Value e @ post"]
    by (simp add: encode_def)
  have r5: "read_full ?d (length pre + 12 + length (Key e)) (length (Value e)) = Inr (Value e)"
    using read_full_middle [of "pre @ ?t @ ?k @ ?v @ Key e" "Value e" post]
    by (simp add: encode_def add.assoc)
  from assms have ks: "unat (KeySize e) = length (Key e)"
    and vs: "unat (ValueSize e) = length (Value e)"
    by (simp_all add: wf_entry_def)
  show ?thesis
    unfolding decode_at_def
    by (simp add: r1 r2 r3 Uint32_PutUint32 ks vs r4 r5 length_encode)
qed

subsection \<open>What a successful write does\<close>

lemma next_io_cases:
  obtains s where "next_io w = (Succeeds, w\<lparr>script := s\<rparr>)"
  | n s where "next_io w = (Fails n, w\<lparr>script := s\<rparr>)"
proof (cases "script w")
  case Nil
  then have "next_io w = (Succeeds, w\<lparr>script := []\<rparr>)" by (simp add: next_io_def)
  then show ?thesis by (rule that(1))
next
  case (Cons x xs)
  then have n: "next_io w = (x, w\<lparr>script := xs\<rparr>)" by (simp add: next_io_def)
  show ?thesis
  proof (cases x)
    case Succeeds
    with n show ?thesis using that(1) by simp
  next
    case (Fails m)
    with n show ?thesis using that(2) by simp
  qed
qed

lemma writer_Write_None:
  assumes "writer_Write w p bs = (w1, None)"
  obtains wr s where "writer (heap w p) = Some wr" and "werr wr = None"
    and "w1 = w\<lparr>script := s, heap := (heap w)(p := (heap w p)\<lparr>writer := Some (wr\<lparr>wbuf := wbuf wr @ bs\<rparr>)\<rparr>)\<rparr>"
proof -
  from assms obtain wr where a: "writer (heap w p) = Some wr" and b: "werr wr = None"
    by (auto simp: writer_Write_def split: option.splits)
  show ?thesis
  proof (cases w rule: next_io_cases)
    case (1 s)
    with assms a b have "w1 = w\<lparr>script := s, heap := (heap w)(p := (heap w p)\<lparr>writer := Some (wr\<lparr>wbuf := wbuf wr @ bs\<rparr>)\<rparr>)\<rparr>"
      by (simp add: writer_Write_def set_file_def)
    with a b show ?thesis by (rule that)
  next
    case (2 n s)
    with assms a b show ?thesis by (simp add: writer_Write_def)
  qed
qed

lemma LogFile_Write_Inr:
  assumes "LogFile_Write w p e = (w', Inr vp)"
  obtains wr s where "writer (heap w p) = Some wr" and "werr wr = None"
    and "\<not> readOnly (heap w p)"
    and "vp = nat (size_f (heap w p) + 12 + int (length (Key e)))"
    and "w' = w\<lparr>script := s, heap := (heap w)(p := (heap w p)\<lparr>
             writer := Some (wr\<lparr>wbuf := wbuf wr @ encode e\<rparr>),
             size_f := size_f (heap w p) + int (length (encode e))\<rparr>)\<rparr>"
proof -
  from assms have ro: "\<not> readOnly (heap w p)"
    by (auto simp: LogFile_Write_def split: if_splits)
  from assms ro obtain w1 where s1: "writer_Write w p (PutUint32 (Timestamp e)) = (w1, None)"
    by (auto simp: LogFile_Write_def Let_def split: prod.splits option.splits)
  from assms ro s1 obtain w2 where s2: "writer_Write w1 p (PutUint32 (KeySize e)) = (w2, None)"
    by (auto simp: LogFile_Write_def Let_def split: prod.splits option.splits)
  from assms ro s1 s2 obtain w3 where s3: "writer_Write w2 p (PutUint32 (ValueSize e)) = (w3, None)"
    by (auto simp: LogFile_Write_def Let_def split: prod.splits option.splits)
  from assms ro s1 s2 s3 obtain w4 where s4: "writer_Write w3 p (Key e) = (w4, None)"
    by (auto simp: LogFile_Write_def Let_def split: prod.splits option.splits)
  from assms ro s1 s2 s3 s4 obtain w5 where s5: "writer_Write w4 p (Value e) = (w5, None)"
    by (auto simp: LogFile_Write_def Let_def split: prod.splits option.splits)
  from assms ro s1 s2 s3 s4 s5 have
    fin: "w' = set_file w5 p ((heap w5 p)\<lparr>size_f := size_f (heap w5 p) + (4 + 4 + 4 + int (length (Key e)) + int (length (Value e)))\<rparr>)"
    and vp: "vp = nat (size_f (heap w5 p) + 12 + int (length (Key e)))"
    by (auto simp: LogFile_Write_def Let_def)
  from s1 obtain wr t1 where a: "writer (heap w p) = Some wr" and b: "werr wr = None"
    and e1: "w1 = w\<lparr>script := t1, heap := (heap w)(p := (heap w p)\<lparr>writer := Some (wr\<lparr>wbuf := wbuf wr @ PutUint32 (Timestamp e)\<rparr>)\<rparr>)\<rparr>"
    by (rule writer_Write_None)
  from s2 e1 obtain t2 where
    e2: "w2 = w\<lparr>script := t2, heap := (heap w)(p := (heap w p)\<lparr>writer := Some (wr\<lparr>wbuf := wbuf wr @ PutUint32 (Timestamp e) @ PutUint32 (KeySize e)\<rparr>)\<rparr>)\<rparr>"
    by (auto elim!: writer_Write_None)
  from s3 e2 obtain t3 where
    e3: "w3 = w\<lparr>script := t3, heap := (heap w)(p := (heap w p)\<lparr>writer := Some (wr\<lparr>wbuf := wbuf wr @ PutUint32 (Timestamp e) @ PutUint32 (KeySize e) @ PutUint32 (ValueSize e)\<rparr>)\<rparr>)\<rparr>"
    by (auto elim!: writer_Write_None)
  from s4 e3 obtain t4 where
    e4: "w4 = w\<lparr>script := t4, heap := (heap w)(p := (heap w p)\<lparr>writer := Some (wr\<lparr>wbuf := wbuf wr @ PutUint32 (Timestamp e) @ PutUint32 (KeySize e) @ PutUint32 (ValueSize e) @ Key e\<rparr>)\<rparr>)\<rparr>"
    by (auto elim!: writer_Write_None)
  from s5 e4 obtain t5 where
    e5: "w5 = w\<lparr>script := t5, heap := (heap w)(p := (heap w p)\<lparr>writer := Some (wr\<lparr>wbuf := wbuf wr @ encode e\<rparr>)\<rparr>)\<rparr>"
    by (auto elim!: writer_Write_None simp: encode_def)
  have "w' = w\<lparr>script := t5, heap := (heap w)(p := (heap w p)\<lparr>
             writer := Some (wr\<lparr>wbuf := wbuf wr @ encode e\<rparr>),
             size_f := size_f (heap w p) + int (length (encode e))\<rparr>)\<rparr>"
    using fin e5 by (simp add: set_file_def length_encode)
  moreover have "vp = nat (size_f (heap w p) + 12 + int (length (Key e)))"
    using vp e5 by simp
  ultimately show ?thesis using a b ro that by blast
qed

lemma writer_Flush_None:
  assumes "writer_Flush w p = (w1, None)" and "writer (heap w p) = Some wr"
    and "wbuf wr \<noteq> []"
  obtains s where "werr wr = None" and "\<not> fclosed (heap w p)"
    and "w1 = w\<lparr>script := s,
                disk := AList.update (file_f (heap w p))
                          (contents w (file_f (heap w p)) @ wbuf wr) (disk w),
                heap := (heap w)(p := (heap w p)\<lparr>writer := Some (wr\<lparr>wbuf := []\<rparr>)\<rparr>)\<rparr>"
proof -
  from assms have b: "werr wr = None" and c: "\<not> fclosed (heap w p)"
    by (auto simp: writer_Flush_def split: option.splits if_splits)
  show ?thesis
  proof (cases w rule: next_io_cases)
    case (1 s)
    with assms b c have "w1 = w\<lparr>script := s,
                disk := AList.update (file_f (heap w p))
                          (contents w (file_f (heap w p)) @ wbuf wr) (disk w),
                heap := (heap w)(p := (heap w p)\<lparr>writer := Some (wr\<lparr>wbuf := []\<rparr>)\<rparr>)\<rparr>"
      by (simp add: writer_Flush_def set_file_def append_file_def contents_def)
    with b c show ?thesis by (rule that)
  next
    case (2 n s)
    with assms b c show ?thesis by (simp add: writer_Flush_def)
  qed
qed

lemma file_Sync_None:
  assumes "file_Sync w p = (w1, None)"
  obtains s where "w1 = w\<lparr>script := s\<rparr>" and "\<not> fclosed (heap w p)"
proof (cases w rule: next_io_cases)
  case (1 s)
  with assms have "w1 = w\<lparr>script := s\<rparr>" and "\<not> fclosed (heap w p)"
    by (auto simp: file_Sync_def split: if_splits)
  then show ?thesis by (rule that)
next
  case (2 n s)
  with assms show ?thesis by (auto simp: file_Sync_def split: if_splits)
qed

lemma sync_or_flush_None:
  assumes "sync_or_flush w bc p = (w1, None)" and "writer (heap w p) = Some wr"
    and "wbuf wr \<noteq> []" and "\<not> readOnly (heap w p)"
  obtains s where "werr wr = None" and "\<not> fclosed (heap w p)"
    and "w1 = w\<lparr>script := s,
                disk := AList.update (file_f (heap w p))
                          (contents w (file_f (heap w p)) @ wbuf wr) (disk w),
                heap := (heap w)(p := (heap w p)\<lparr>writer := Some (wr\<lparr>wbuf := []\<rparr>)\<rparr>)\<rparr>"
proof (cases "SyncWrites (config bc)")
  case True
  with assms obtain w2 where f: "writer_Flush w p = (w2, None)"
    and y: "file_Sync w2 p = (w1, None)"
    by (auto simp: sync_or_flush_def LogFile_Sync_def split: prod.splits option.splits)
  from f assms(2,3) obtain s where b: "werr wr = None" and c: "\<not> fclosed (heap w p)"
    and e: "w2 = w\<lparr>script := s,
                disk := AList.update (file_f (heap w p))
                          (contents w (file_f (heap w p)) @ wbuf wr) (disk w),
                heap := (heap w)(p := (heap w p)\<lparr>writer := Some (wr\<lparr>wbuf := []\<rparr>)\<rparr>)\<rparr>"
    by (rule writer_Flush_None)
  from y obtain s' where "w1 = w2\<lparr>script := s'\<rparr>" by (rule file_Sync_None)
  with e have "w1 = w\<lparr>script := s',
                disk := AList.update (file_f (heap w p))
                          (contents w (file_f (heap w p)) @ wbuf wr) (disk w),
                heap := (heap w)(p := (heap w p)\<lparr>writer := Some (wr\<lparr>wbuf := []\<rparr>)\<rparr>)\<rparr>"
    by simp
  with b c show ?thesis by (rule that)
next
  case False
  with assms have f: "writer_Flush w p = (w1, None)"
    by (auto simp: sync_or_flush_def LogFile_Flush_def split: prod.splits option.splits)
  from f assms(2,3) show ?thesis using that by (rule writer_Flush_None)
qed

lemma contents_update:
  "contents (w\<lparr>disk := AList.update name d (disk w)\<rparr>) name' =
     (if name' = name then d else contents w name')"
  by (simp add: contents_def update_conv')

subsection \<open>A log file to try the record layout on\<close>

definition lf1 :: LogFile where
  "lf1 = \<lparr>id_f = 1, file_f = ''0000000001.bitcask'', fclosed = False,
          writer = Some \<lparr>wbuf = [], werr = None\<rparr>, size_f = 0, readOnly = False\<rparr>"

definition world1 :: world where
  "world1 = \<lparr>disk = [(''0000000001.bitcask'', [])], heap = (\<lambda>p. lf1), fresh = 1,
             script = [], clock = 0\<rparr>"

definition entry1 :: LogEntry where
  "entry1 = \<lparr>Timestamp = 7, KeySize = 1, ValueSize = 2, Key = [107], Value = [118, 119]\<rparr>"

text \<open>A key of \<open>2 ^ 32\<close> bytes: \<^verbatim>\<open>uint32(len(key))\<close> is 0.\<close>

definition bigkey :: "byte list" where
  "bigkey = replicate 4294967296 0"

definition entry_big :: LogEntry where
  "entry_big = \<lparr>Timestamp = 7, KeySize = of_nat (length bigkey),
                 ValueSize = of_nat (length ([] :: byte list)), Key = bigkey, Value = []\<rparr>"

lemma entry_big_eq:
  "entry_big = \<lparr>Timestamp = 7, KeySize = 0, ValueSize = 0, Key = bigkey, Value = []\<rparr>"
  by (simp add: entry_big_def bigkey_def)

lemma bigkey_ne: "bigkey \<noteq> []" and bigkey_ne': "[] \<noteq> bigkey"
  by (simp_all add: bigkey_def)

lemma write_entry1:
  "LogFile_Write world1 0 entry1 = (fst (LogFile_Write world1 0 entry1), Inr 13)"
  by (simp add: LogFile_Write_def writer_Write_def next_io_def set_file_def world1_def lf1_def
      entry1_def Let_def)

lemma flush_entry1:
  "LogFile_Flush (fst (LogFile_Write world1 0 entry1)) 0 =
     (fst (LogFile_Flush (fst (LogFile_Write world1 0 entry1)) 0), None)"
  by (simp add: LogFile_Write_def LogFile_Flush_def writer_Flush_def writer_Write_def next_io_def
      set_file_def world1_def lf1_def entry1_def Let_def append_file_def)

lemma script_entry1:
  "script (fst (LogFile_Flush (fst (LogFile_Write world1 0 entry1)) 0)) = []"
  by (simp add: LogFile_Write_def LogFile_Flush_def writer_Flush_def writer_Write_def next_io_def
      set_file_def world1_def lf1_def entry1_def Let_def append_file_def)

lemma write_entry_big:
  "snd (LogFile_Write world1 0 entry_big) = Inr 4294967308"
  by (simp add: entry_big_eq LogFile_Write_def writer_Write_def next_io_def set_file_def
      world1_def lf1_def Let_def) (simp add: bigkey_def)

lemma read_entry_big:
  "snd (LogFile_Flush (fst (LogFile_Write world1 0 entry_big)) 0) = None \<and>
   script (fst (LogFile_Flush (fst (LogFile_Write world1 0 entry_big)) 0)) = [] \<and>
   snd (ReadEntry (fst (LogFile_Flush (fst (LogFile_Write world1 0 entry_big)) 0)) 0 0) =
     Inr (\<lparr>Timestamp = 7, KeySize = 0, ValueSize = 0, Key = [], Value = []\<rparr>, 12)"
  by (simp add: entry_big_eq LogFile_Write_def LogFile_Flush_def writer_Flush_def
      writer_Write_def next_io_def set_file_def world1_def lf1_def Let_def append_file_def
      ReadEntry_def file_Seek_def io_ReadFull_def contents_def PutUint32_def Uint32_def)

text \<open>
  C4 (as amended). A record built as Put and Delete build it, whose key and value are
  shorter than \<open>2 ^ 32\<close> bytes, is written by \<open>LogFile_Write\<close>, flushed, and read back by
  \<open>ReadEntry\<close> at the offset where it was written: the same record comes back, and the next
  offset is the offset plus 12 plus the lengths of key and value.
\<close>

theorem record_roundtrip:
  assumes "writer (heap w p) = Some \<lparr>wbuf = [], werr = None\<rparr>"
    and "size_f (heap w p) = int (length (contents w (file_f (heap w p))))"
    and "length k < 2 ^ 32" and "length v < 2 ^ 32"
    and "entry = \<lparr>Timestamp = ts, KeySize = of_nat (length k), ValueSize = of_nat (length v),
                   Key = k, Value = v\<rparr>"
    and "LogFile_Write w p entry = (w1, Inr valuePos)"
    and "LogFile_Flush w1 p = (w2, None)"
    and "script w2 = []"
  shows "ReadEntry w2 p (size_f (heap w p)) =
           (w2, Inr (entry, size_f (heap w p) + 12 + int (length k) + int (length v)))"
proof -
  let ?f = "file_f (heap w p)"
  let ?old = "contents w ?f"
  from assms(6) obtain wr s where wr: "writer (heap w p) = Some wr"
    and ro: "\<not> readOnly (heap w p)"
    and w1: "w1 = w\<lparr>script := s, heap := (heap w)(p := (heap w p)\<lparr>
             writer := Some (wr\<lparr>wbuf := wbuf wr @ encode entry\<rparr>),
             size_f := size_f (heap w p) + int (length (encode entry))\<rparr>)\<rparr>"
    by (rule LogFile_Write_Inr)
  from wr assms(1) have wr': "wr = \<lparr>wbuf = [], werr = None\<rparr>" by simp
  have ne: "encode entry \<noteq> []" by (simp add: encode_def PutUint32_def)
  from assms(7) w1 wr' ro have fl: "writer_Flush w1 p = (w2, None)"
    by (simp add: LogFile_Flush_def)
  have w1wr: "writer (heap w1 p) = Some \<lparr>wbuf = encode entry, werr = None\<rparr>"
    using w1 wr' by simp
  from fl w1wr obtain s' where nc: "\<not> fclosed (heap w1 p)"
    and w2: "w2 = w1\<lparr>script := s',
                disk := AList.update (file_f (heap w1 p))
                          (contents w1 (file_f (heap w1 p)) @ wbuf \<lparr>wbuf = encode entry, werr = None\<rparr>) (disk w1),
                heap := (heap w1)(p := (heap w1 p)\<lparr>writer := Some (\<lparr>wbuf = encode entry, werr = None\<rparr>\<lparr>wbuf := []\<rparr>)\<rparr>)\<rparr>"
    using ne by (auto elim!: writer_Flush_None)
  have c1: "contents w1 (file_f (heap w1 p)) = ?old" using w1 by (simp add: contents_def)
  have c2: "contents w2 (file_f (heap w2 p)) = ?old @ encode entry @ []"
    using w2 w1 by (simp add: contents_def update_conv')
  have nc2: "\<not> fclosed (heap w2 p)" using nc w2 by simp
  have rel: "reliable w2" using assms(8) by (simp add: reliable_def)
  have wf: "wf_entry entry"
    using assms(3,4,5) by (simp add: wf_entry_def unat_of_nat)
  have "ReadEntry w2 p (int (length ?old)) =
     (w2, case decode_at (contents w2 (file_f (heap w2 p))) (nat (int (length ?old))) of
           Inl e \<Rightarrow> Inl e
         | Inr (entry, n) \<Rightarrow> Inr (entry, int n))"
    by (rule ReadEntry_reliable [OF rel nc2]) simp
  also have "decode_at (contents w2 (file_f (heap w2 p))) (nat (int (length ?old))) =
      Inr (entry, length ?old + length (encode entry))"
    unfolding c2 using decode_at_encode [OF wf, of ?old "[]"] by simp
  finally show ?thesis
    using assms(2,5) by (simp add: length_encode)
qed

theorem record_roundtrip_witness:
  "ReadEntry (fst (LogFile_Flush (fst (LogFile_Write world1 0 entry1)) 0)) 0 0 =
     (fst (LogFile_Flush (fst (LogFile_Write world1 0 entry1)) 0), Inr (entry1, 15))"
  using record_roundtrip [of world1 0 "[107]" "[118, 119]" entry1 7,
      OF _ _ _ _ _ write_entry1 flush_entry1 script_entry1]
  by (simp add: world1_def lf1_def entry1_def contents_def)

text \<open>
  The claim as it stands fails on a key of \<open>2 ^ 32\<close> bytes: the record is written and
  flushed without error, and what is read back at offset 0 has the empty key and the next
  offset 12.
\<close>

theorem record_roundtrip_counterexample:
  "snd (LogFile_Write world1 0 entry_big) = Inr 4294967308 \<and>
   snd (LogFile_Flush (fst (LogFile_Write world1 0 entry_big)) 0) = None \<and>
   script (fst (LogFile_Flush (fst (LogFile_Write world1 0 entry_big)) 0)) = [] \<and>
   snd (ReadEntry (fst (LogFile_Flush (fst (LogFile_Write world1 0 entry_big)) 0)) 0 0) =
     Inr (\<lparr>Timestamp = 7, KeySize = 0, ValueSize = 0, Key = [], Value = []\<rparr>, 12) \<and>
   snd (ReadEntry (fst (LogFile_Flush (fst (LogFile_Write world1 0 entry_big)) 0)) 0 0) \<noteq>
     Inr (entry_big, 0 + 12 + int (length (Key entry_big)) + int (length (Value entry_big)))"
  using write_entry_big read_entry_big by (simp add: entry_big_eq bigkey_ne')

subsection \<open>What every call leaves alone\<close>

text \<open>
  \<open>frame p w w1\<close>: from \<open>w\<close> to \<open>w1\<close> files were only appended to, no log file was
  allocated, and no log file changed but in the writer and the size of the one at \<open>p\<close>.
\<close>

definition appends_only :: "world \<Rightarrow> world \<Rightarrow> bool" where
  "appends_only w w1 \<longleftrightarrow>
     (\<forall>name d. map_of (disk w) name = Some d \<longrightarrow>
        (\<exists>d'. map_of (disk w1) name = Some (d @ d')))"

definition frame :: "nat \<Rightarrow> world \<Rightarrow> world \<Rightarrow> bool" where
  "frame p w w1 \<longleftrightarrow>
     appends_only w w1 \<and> fresh w1 = fresh w \<and> clock w1 = clock w \<and>
     (\<forall>q. q \<noteq> p \<longrightarrow> heap w1 q = heap w q) \<and>
     id_f (heap w1 p) = id_f (heap w p) \<and> file_f (heap w1 p) = file_f (heap w p) \<and>
     readOnly (heap w1 p) = readOnly (heap w p) \<and> fclosed (heap w1 p) = fclosed (heap w p) \<and>
     (writer (heap w1 p) = None \<longleftrightarrow> writer (heap w p) = None)"

lemma appends_only_refl [simp]: "appends_only w w"
  by (simp add: appends_only_def)

lemma appends_only_trans: "appends_only w w1 \<Longrightarrow> appends_only w1 w2 \<Longrightarrow> appends_only w w2"
  unfolding appends_only_def by (metis append.assoc)

lemma frame_refl [simp]: "frame p w w"
  by (simp add: frame_def)

lemma frame_trans: "frame p w w1 \<Longrightarrow> frame p w1 w2 \<Longrightarrow> frame p w w2"
  unfolding frame_def using appends_only_trans by auto

lemma frame_script [simp]: "frame p w (w\<lparr>script := s\<rparr>)"
  by (simp add: frame_def appends_only_def)

lemma next_io_frame: "next_io w = (x, w1) \<Longrightarrow> frame p w w1"
  by (cases w rule: next_io_cases) auto

lemma appends_only_append_file: "appends_only w (append_file w name bs)"
  by (auto simp: appends_only_def append_file_def update_conv' contents_def)

lemma writer_Write_frame: "writer_Write w p bs = (w1, r) \<Longrightarrow> frame p w w1"
  by (cases w rule: next_io_cases)
    (auto simp: writer_Write_def frame_def set_file_def append_file_def appends_only_def
      update_conv' contents_def split: option.splits)

lemma writer_Flush_frame: "writer_Flush w p = (w1, r) \<Longrightarrow> frame p w w1"
  by (cases w rule: next_io_cases)
    (auto simp: writer_Flush_def frame_def set_file_def append_file_def appends_only_def
      update_conv' contents_def split: option.splits if_splits)

lemma file_Sync_frame: "file_Sync w p = (w1, r) \<Longrightarrow> frame p w w1"
  by (cases w rule: next_io_cases) (auto simp: file_Sync_def split: if_splits)

lemma LogFile_Sync_frame: "LogFile_Sync w p = (w1, r) \<Longrightarrow> frame p w w1"
  by (auto simp: LogFile_Sync_def split: if_splits prod.splits option.splits
      dest!: writer_Flush_frame file_Sync_frame intro: frame_trans)

lemma LogFile_Flush_frame: "LogFile_Flush w p = (w1, r) \<Longrightarrow> frame p w w1"
  by (auto simp: LogFile_Flush_def split: if_splits dest!: writer_Flush_frame)

lemma sync_or_flush_frame: "sync_or_flush w bc p = (w1, r) \<Longrightarrow> frame p w w1"
  by (auto simp: sync_or_flush_def split: if_splits prod.splits option.splits
      dest!: LogFile_Flush_frame LogFile_Sync_frame)

lemma LogFile_Write_frame: "LogFile_Write w p e = (w1, r) \<Longrightarrow> frame p w w1"
proof -
  assume a: "LogFile_Write w p e = (w1, r)"
  have set_size: "frame p w' (set_file w' p ((heap w' p)\<lparr>size_f := n\<rparr>))" for w' n
    by (simp add: frame_def set_file_def appends_only_def)
  show ?thesis
  proof (cases "readOnly (heap w p)")
    case True
    with a show ?thesis by (simp add: LogFile_Write_def)
  next
    case False
    obtain wa ra where s1: "writer_Write w p (PutUint32 (Timestamp e)) = (wa, ra)" by force
    obtain wb rb where s2: "writer_Write wa p (PutUint32 (KeySize e)) = (wb, rb)" by force
    obtain wc rc where s3: "writer_Write wb p (PutUint32 (ValueSize e)) = (wc, rc)" by force
    obtain wd rd where s4: "writer_Write wc p (Key e) = (wd, rd)" by force
    obtain we re where s5: "writer_Write wd p (Value e) = (we, re)" by force
    have f1: "frame p w wa" using s1 by (rule writer_Write_frame)
    have f2: "frame p w wb" using f1 writer_Write_frame [OF s2] by (rule frame_trans)
    have f3: "frame p w wc" using f2 writer_Write_frame [OF s3] by (rule frame_trans)
    have f4: "frame p w wd" using f3 writer_Write_frame [OF s4] by (rule frame_trans)
    have f5: "frame p w we" using f4 writer_Write_frame [OF s5] by (rule frame_trans)
    have f6: "frame p w (set_file we p ((heap we p)\<lparr>size_f := n\<rparr>))" for n
      using f5 set_size by (rule frame_trans)
    from a False s1 s2 s3 s4 s5 show ?thesis
      using f1 f2 f3 f4 f5 f6
      by (auto simp: LogFile_Write_def Let_def split: option.splits)
  qed
qed

subsection \<open>The key directory under Put and Delete\<close>

lemma createActiveFile_keyDir:
  "createActiveFile w bc = (w1, bc1, r) \<Longrightarrow>
     keyDir bc1 = keyDir bc \<and> config bc1 = config bc \<and> readOnlyFiles bc1 = readOnlyFiles bc"
  by (auto simp: createActiveFile_def Let_def split: prod.splits sum.splits)

lemma rotateActiveFile_keyDir:
  "rotateActiveFile w bc = (w1, bc1, r) \<Longrightarrow> keyDir bc1 = keyDir bc \<and> config bc1 = config bc"
  by (auto simp: rotateActiveFile_def split: option.splits prod.splits
      dest!: createActiveFile_keyDir)

text \<open>
  C7. When Put or Delete returns an error, whichever step failed, the key directory is
  the one the operation started with.
\<close>

theorem failed_write_keeps_keyDir:
  "(Put w bc k v = (w1, bc1, Some e) \<longrightarrow> keyDir bc1 = keyDir bc) \<and>
   (Delete w bc k = (w2, bc2, Some e') \<longrightarrow> keyDir bc2 = keyDir bc)"
proof
  show "Put w bc k v = (w1, bc1, Some e) \<longrightarrow> keyDir bc1 = keyDir bc"
  proof (cases "activeFile bc")
    case None
    then show ?thesis by (simp add: Put_def)
  next
    case (Some a0)
    obtain wr bcr rr where
      rot: "(if size_f (heap w a0) \<ge> MaxFileSize (config bc) then rotateActiveFile w bc
            else (w, bc, None)) = (wr, bcr, rr)"
      by (metis prod_cases3)
    have kd: "keyDir bcr = keyDir bc"
      using rot by (auto split: if_splits dest: rotateActiveFile_keyDir)
    show ?thesis
    proof
      assume "Put w bc k v = (w1, bc1, Some e)"
      with Some rot have "bc1 = bcr"
        by (auto simp: Put_def Let_def split: option.splits prod.splits sum.splits)
      with kd show "keyDir bc1 = keyDir bc" by simp
    qed
  qed
  show "Delete w bc k = (w2, bc2, Some e') \<longrightarrow> keyDir bc2 = keyDir bc"
    by (auto simp: Delete_def Let_def split: option.splits prod.splits sum.splits)
qed

text \<open>
  C6. After a Delete that returned without error, Get reports that the key is not found,
  and Keys does not hold the key.
\<close>

theorem delete_then_absent:
  assumes "Delete w bc k = (w1, bc1, None)"
  shows "Get w1 bc1 k = (w1, Inl (KeyNotFound k)) \<and> k \<notin> Keys bc1"
proof -
  from assms have "keyDir bc1 k = None"
    by (auto simp: Delete_def Let_def split: option.splits prod.splits sum.splits)
  then show ?thesis
    by (auto simp: Get_def Keys_def)
qed

subsection \<open>Delete and the active file\<close>

text \<open>A run of Deletes, whatever each of them returns.\<close>

fun Deletes :: "world \<Rightarrow> Bitcask \<Rightarrow> key list \<Rightarrow> world \<times> Bitcask \<times> error option list" where
  "Deletes w bc [] = (w, bc, [])"
| "Deletes w bc (k # ks) =
     (case Delete w bc k of
        (w1, bc1, r) \<Rightarrow> (case Deletes w1 bc1 ks of (w2, bc2, rs) \<Rightarrow> (w2, bc2, r # rs)))"

lemma writer_Flush_size: "writer_Flush w p = (w1, r) \<Longrightarrow> size_f (heap w1 p) = size_f (heap w p)"
  by (cases w rule: next_io_cases)
    (auto simp: writer_Flush_def set_file_def append_file_def split: option.splits if_splits)

lemma file_Sync_size: "file_Sync w p = (w1, r) \<Longrightarrow> size_f (heap w1 p) = size_f (heap w p)"
  by (cases w rule: next_io_cases) (auto simp: file_Sync_def split: if_splits)

lemma sync_or_flush_size:
  "sync_or_flush w bc p = (w1, r) \<Longrightarrow> size_f (heap w1 p) = size_f (heap w p)"
  by (auto simp: sync_or_flush_def LogFile_Sync_def LogFile_Flush_def
      split: if_splits prod.splits option.splits
      dest!: writer_Flush_size file_Sync_size)

lemma Delete_effect:
  assumes "Delete w bc k = (w1, bc1, r)"
  shows "activeFile bc1 = activeFile bc" and "readOnlyFiles bc1 = readOnlyFiles bc"
    and "config bc1 = config bc"
    and "activeFile bc = Some a \<Longrightarrow> frame a w w1"
    and "activeFile bc = Some a \<Longrightarrow> r = None \<Longrightarrow>
           size_f (heap w1 a) = size_f (heap w a) + 12 + int (length k)"
proof -
  show "activeFile bc1 = activeFile bc" and "readOnlyFiles bc1 = readOnlyFiles bc"
    and "config bc1 = config bc"
    using assms
    by (auto simp: Delete_def Let_def split: option.splits prod.splits sum.splits)
  let ?e = "\<lparr>Timestamp = word_of_int (clock w), KeySize = of_nat (length k),
             ValueSize = 0, Key = k, Value = []\<rparr>"
  {
    assume a: "activeFile bc = Some a"
    show "frame a w w1"
    proof (cases "keyDir bc k")
      case None
      with assms show ?thesis by (simp add: Delete_def)
    next
      case (Some old)
      obtain wa ra where wr: "LogFile_Write w a ?e = (wa, ra)" by force
      obtain wb rb where fl: "sync_or_flush wa bc a = (wb, rb)" by force
      have f1: "frame a w wa" using wr by (rule LogFile_Write_frame)
      have f2: "frame a w wb" using f1 sync_or_flush_frame [OF fl] by (rule frame_trans)
      from assms a Some wr fl f1 f2 show ?thesis
        by (auto simp: Delete_def Let_def split: option.splits sum.splits)
    qed
  }
  {
    assume a: "activeFile bc = Some a" and r: "r = None"
    from assms r a obtain wa vp where wr: "LogFile_Write w a ?e = (wa, Inr vp)"
      and fl: "sync_or_flush wa bc a = (w1, None)"
      by (auto simp: Delete_def Let_def split: option.splits prod.splits sum.splits)
    from wr have "size_f (heap wa a) = size_f (heap w a) + int (length (encode ?e))"
      by (rule LogFile_Write_Inr) simp
    then show "size_f (heap w1 a) = size_f (heap w a) + 12 + int (length k)"
      using sync_or_flush_size [OF fl] by (simp add: length_encode)
  }
qed

text \<open>
  C10. Delete never rotates: after any run of Deletes, whatever each returned, the active
  file is the same log file with the same id and file, and the read-only files are the
  same. Nothing in Delete looks at \<open>MaxFileSize\<close>: when all of them succeeded, the size of
  the active file has grown by 12 bytes and the key for each, whatever the threshold is.
\<close>

theorem delete_never_rotates:
  assumes "Deletes w bc ks = (w1, bc1, rs)"
  shows "activeFile bc1 = activeFile bc \<and> readOnlyFiles bc1 = readOnlyFiles bc \<and>
     (\<forall>a. activeFile bc = Some a \<longrightarrow>
        id_f (heap w1 a) = id_f (heap w a) \<and> file_f (heap w1 a) = file_f (heap w a) \<and>
        (list_all (\<lambda>r. r = None) rs \<longrightarrow>
           size_f (heap w1 a) = size_f (heap w a) + (\<Sum>k\<leftarrow>ks. 12 + int (length k))))"
  using assms
proof (induction ks arbitrary: w bc rs)
  case Nil
  then show ?case by simp
next
  case (Cons k ks)
  obtain wa bca r where d: "Delete w bc k = (wa, bca, r)" by (metis prod_cases3)
  from Cons.prems d obtain rs' where ds: "Deletes wa bca ks = (w1, bc1, rs')"
    and eq: "rs = r # rs'"
    by (auto split: prod.splits)
  note ih = Cons.IH [OF ds]
  note ef = Delete_effect [OF d]
  show ?case
  proof (intro conjI allI impI)
    show "activeFile bc1 = activeFile bc" using ih ef(1) eq by simp
    show "readOnlyFiles bc1 = readOnlyFiles bc" using ih ef(2) eq by simp
  next
    fix a assume a: "activeFile bc = Some a"
    then have a': "activeFile bca = Some a" using ef(1) by simp
    have fr: "frame a w wa" using ef(4) a by simp
    show "id_f (heap w1 a) = id_f (heap w a)"
      using ih a' fr eq by (simp add: frame_def)
    show "file_f (heap w1 a) = file_f (heap w a)"
      using ih a' fr eq by (simp add: frame_def)
    assume "list_all (\<lambda>r. r = None) rs"
    then have r: "r = None" and rs': "list_all (\<lambda>r. r = None) rs'" using eq by simp_all
    have "size_f (heap wa a) = size_f (heap w a) + 12 + int (length k)"
      using ef(5) a r by simp
    moreover have "size_f (heap w1 a) = size_f (heap wa a) + (\<Sum>k\<leftarrow>ks. 12 + int (length k))"
      using ih a' rs' by simp
    ultimately show "size_f (heap w1 a) = size_f (heap w a) + (\<Sum>k\<leftarrow>(k # ks). 12 + int (length k))"
      using eq by simp
  qed
qed

subsection \<open>Runs on an empty directory\<close>

lemmas call_defs =
  next_io_def contents_def append_file_def set_file_def
  os_ReadDir_def os_OpenFile_def os_MkdirAll_def file_Stat_def file_Sync_def file_Close_def
  file_ReadAt_def file_Seek_def io_ReadFull_def writer_Write_def writer_Flush_def
  NewLogFile_def LogFile_Sync_def LogFile_Flush_def LogFile_Close_def LogFile_Write_def
  LogFile_Read_def ReadEntry_def
  rebuildKeyDir_def loadFiles_def createActiveFile_def rotateActiveFile_def max_id_def
  Open_def Close_def sync_or_flush_def Put_def Get_def Delete_def Sync_def
  PutUint32_def Uint32_def Let_def

lemma file_name_1: "file_name 1 = ''0000000001.bitcask''"
  by (simp add: file_name_def decimal.simps digit_char_def) (simp add: numeral_eq_Suc)

lemma file_name_2: "file_name 2 = ''0000000002.bitcask''"
  by (simp add: file_name_def decimal.simps digit_char_def) (simp add: numeral_eq_Suc)

lemma ids_none: "fileIDs_of [] = []"
  by (simp add: fileIDs_of_def)

lemma ids_1: "fileIDs_of [''0000000001.bitcask''] = [1]"
  by (simp add: fileIDs_of_def HasSuffix_def TrimSuffix_def ParseUint_def digit_of_def)

lemma ids_1_2: "fileIDs_of [''0000000001.bitcask'', ''0000000002.bitcask''] = [1, 2]"
  by (simp add: fileIDs_of_def HasSuffix_def TrimSuffix_def ParseUint_def digit_of_def)

definition lf_none :: LogFile where
  "lf_none = \<lparr>id_f = 0, file_f = [], fclosed = True, writer = None, size_f = 0, readOnly = True\<rparr>"

definition world0 :: world where
  "world0 = \<lparr>disk = [], heap = (\<lambda>p. lf_none), fresh = 0, script = [], clock = 0\<rparr>"

text \<open>The database opened on the empty directory, with the default configuration.\<close>

definition w_open :: world where
  "w_open = \<lparr>disk = [(''0000000001.bitcask'', [])],
     heap = (\<lambda>p. lf_none)(0 := \<lparr>id_f = 1, file_f = ''0000000001.bitcask'', fclosed = False,
              writer = Some \<lparr>wbuf = [], werr = None\<rparr>, size_f = 0, readOnly = False\<rparr>),
     fresh = 1, script = [], clock = 0\<rparr>"

definition bc_open :: Bitcask where
  "bc_open = \<lparr>keyDir = Map.empty, activeFile = Some 0, readOnlyFiles = [], config = DefaultConfig\<rparr>"

lemma open_ok: "Open world0 None = (w_open, Inr bc_open)"
  by (simp add: world0_def w_open_def bc_open_def call_defs ids_none file_name_1
      cong: prod.case_cong_weak option.case_cong_weak sum.case_cong_weak
        list.case_cong_weak outcome.case_cong_weak if_weak_cong)

text \<open>After \<^verbatim>\<open>Put("k", "v")\<close>.\<close>

definition w_put :: world where
  "w_put = \<lparr>disk = [(''0000000001.bitcask'', [0, 0, 0, 0, 1, 0, 0, 0, 1, 0, 0, 0, 107, 118])],
     heap = (\<lambda>p. lf_none)(0 := \<lparr>id_f = 1, file_f = ''0000000001.bitcask'', fclosed = False,
              writer = Some \<lparr>wbuf = [], werr = None\<rparr>, size_f = 14, readOnly = False\<rparr>),
     fresh = 1, script = [], clock = 0\<rparr>"

definition bc_put :: Bitcask where
  "bc_put = \<lparr>keyDir = [[107] \<mapsto> \<lparr>FileID = 1, ValueSize_k = 1, ValuePos = 13, Timestamp_k = 0\<rparr>],
              activeFile = Some 0, readOnlyFiles = [], config = DefaultConfig\<rparr>"

lemmas weak_congs = prod.case_cong_weak option.case_cong_weak sum.case_cong_weak
  list.case_cong_weak outcome.case_cong_weak if_weak_cong

lemma put_ok: "Put w_open bc_open [107] [118] = (w_put, bc_put, None)"
  by (simp add: w_open_def bc_open_def w_put_def bc_put_def DefaultConfig_def call_defs
      cong: weak_congs)

lemma put_fails:
  "snd (snd (Put (w_open\<lparr>script := [Fails 0]\<rparr>) bc_open [107] [118])) =
      Some (Wrapped ''failed to write entry'' ErrIO)"
  by (simp add: w_open_def bc_open_def DefaultConfig_def call_defs cong: weak_congs)

lemma delete_fails:
  "snd (snd (Delete (w_put\<lparr>script := [Succeeds, Succeeds, Succeeds, Succeeds, Succeeds, Fails 3]\<rparr>) bc_put [107])) =
      Some (Wrapped ''failed to flush'' ErrIO)"
  by (simp add: w_put_def bc_put_def DefaultConfig_def call_defs cong: weak_congs)

text \<open>After \<^verbatim>\<open>Delete("k")\<close>.\<close>

definition w_del :: world where
  "w_del = \<lparr>disk = [(''0000000001.bitcask'',
        [0, 0, 0, 0, 1, 0, 0, 0, 1, 0, 0, 0, 107, 118, 0, 0, 0, 0, 1, 0, 0, 0, 0, 0, 0, 0, 107])],
     heap = (\<lambda>p. lf_none)(0 := \<lparr>id_f = 1, file_f = ''0000000001.bitcask'', fclosed = False,
              writer = Some \<lparr>wbuf = [], werr = None\<rparr>, size_f = 27, readOnly = False\<rparr>),
     fresh = 1, script = [], clock = 0\<rparr>"

definition bc_del :: Bitcask where
  "bc_del = \<lparr>keyDir = Map.empty, activeFile = Some 0, readOnlyFiles = [],
              config = DefaultConfig\<rparr>"

lemma delete_ok: "Delete w_put bc_put [107] = (w_del, bc_del, None)"
  by (simp add: w_put_def bc_put_def w_del_def bc_del_def DefaultConfig_def call_defs
      cong: weak_congs)

theorem delete_then_absent_witness:
  "Delete w_put bc_put [107] = (w_del, bc_del, None) \<and>
   Get w_del bc_del [107] = (w_del, Inl (KeyNotFound [107])) \<and> [107] \<notin> Keys bc_del"
  using delete_then_absent [OF delete_ok] delete_ok by simp

text \<open>The same with a threshold of 20 bytes.\<close>

definition cfg20 :: Config where
  "cfg20 = \<lparr>MaxFileSize = 20, SyncWrites = False, CompactionInterval = 0\<rparr>"

lemma open20_ok: "Open world0 (Some cfg20) = (w_open, Inr (bc_open\<lparr>config := cfg20\<rparr>))"
  by (simp add: world0_def w_open_def bc_open_def call_defs ids_none file_name_1
      cong: weak_congs)

lemma put20_ok:
  "Put w_open (bc_open\<lparr>config := cfg20\<rparr>) [107] [118] = (w_put, bc_put\<lparr>config := cfg20\<rparr>, None)"
  by (simp add: w_open_def bc_open_def w_put_def bc_put_def cfg20_def call_defs
      cong: weak_congs)

lemma deletes20_ok:
  "Deletes w_put (bc_put\<lparr>config := cfg20\<rparr>) [[107]] = (w_del, bc_del\<lparr>config := cfg20\<rparr>, [None])"
  by (simp add: w_put_def bc_put_def w_del_def bc_del_def cfg20_def call_defs
      cong: weak_congs)

lemma put20_rotates:
  "activeFile (fst (snd (Put w_del (bc_del\<lparr>config := cfg20\<rparr>) [108] [118]))) = Some 1 \<and>
   id_f (heap (fst (Put w_del (bc_del\<lparr>config := cfg20\<rparr>) [108] [118])) 1) = 2 \<and>
   snd (snd (Put w_del (bc_del\<lparr>config := cfg20\<rparr>) [108] [118])) = None"
  by (simp add: w_del_def bc_del_def cfg20_def call_defs file_name_2 cong: weak_congs)

theorem delete_never_rotates_witness:
  "Deletes w_put (bc_put\<lparr>config := cfg20\<rparr>) [[107]] = (w_del, bc_del\<lparr>config := cfg20\<rparr>, [None]) \<and>
   activeFile (bc_del\<lparr>config := cfg20\<rparr>) = activeFile (bc_put\<lparr>config := cfg20\<rparr>) \<and>
   readOnlyFiles (bc_del\<lparr>config := cfg20\<rparr>) = readOnlyFiles (bc_put\<lparr>config := cfg20\<rparr>) \<and>
   activeFile (bc_put\<lparr>config := cfg20\<rparr>) = Some 0 \<and>
   id_f (heap w_del 0) = id_f (heap w_put 0) \<and>
   size_f (heap w_put 0) = 14 \<and> size_f (heap w_del 0) = 27 \<and>
   MaxFileSize (config (bc_del\<lparr>config := cfg20\<rparr>)) = 20 \<and>
   activeFile (fst (snd (Put w_del (bc_del\<lparr>config := cfg20\<rparr>) [108] [118]))) = Some 1"
  using delete_never_rotates [OF deletes20_ok] deletes20_ok put20_rotates
  by (simp add: bc_put_def w_put_def cfg20_def)

theorem failed_write_keeps_keyDir_witness:
  "snd (snd (Put (w_open\<lparr>script := [Fails 0]\<rparr>) bc_open [107] [118])) =
     Some (Wrapped ''failed to write entry'' ErrIO) \<and>
   keyDir (fst (snd (Put (w_open\<lparr>script := [Fails 0]\<rparr>) bc_open [107] [118]))) =
     keyDir bc_open \<and>
   snd (snd (Delete (w_put\<lparr>script := [Succeeds, Succeeds, Succeeds, Succeeds, Succeeds,
     Fails 3]\<rparr>) bc_put [107])) = Some (Wrapped ''failed to flush'' ErrIO) \<and>
   keyDir (fst (snd (Delete (w_put\<lparr>script := [Succeeds, Succeeds, Succeeds, Succeeds, Succeeds,
     Fails 3]\<rparr>) bc_put [107]))) = keyDir bc_put"
proof -
  let ?p = "Put (w_open\<lparr>script := [Fails 0]\<rparr>) bc_open [107] [118]"
  let ?d = "Delete (w_put\<lparr>script := [Succeeds, Succeeds, Succeeds, Succeeds, Succeeds,
     Fails 3]\<rparr>) bc_put [107]"
  have p: "?p = (fst ?p, fst (snd ?p), Some (Wrapped ''failed to write entry'' ErrIO))"
    using put_fails by (simp add: prod_eq_iff)
  have d: "?d = (fst ?d, fst (snd ?d), Some (Wrapped ''failed to flush'' ErrIO))"
    using delete_fails by (simp add: prod_eq_iff)
  have a: "keyDir (fst (snd ?p)) = keyDir bc_open"
    using failed_write_keeps_keyDir [THEN conjunct1] p by (rule mp)
  have b: "keyDir (fst (snd ?d)) = keyDir bc_put"
    using failed_write_keeps_keyDir [THEN conjunct2] d by (rule mp)
  from put_fails a delete_fails b show ?thesis by simp
qed

subsection \<open>The active file between operations\<close>

text \<open>\<open>broken w p\<close>: the writer of the log file is missing or has met an error.\<close>

definition broken :: "world \<Rightarrow> nat \<Rightarrow> bool" where
  "broken w p \<longleftrightarrow> (\<forall>wr. writer (heap w p) = Some wr \<longrightarrow> werr wr \<noteq> None)"

text \<open>
  \<open>wf_active w a\<close>: the log file at \<open>a\<close> is writable and open on the file that its id
  names, and unless its writer has met an error, nothing is pending in it and its size is
  the length of the file.
\<close>

definition wf_active :: "world \<Rightarrow> nat \<Rightarrow> bool" where
  "wf_active w a \<longleftrightarrow>
     \<not> readOnly (heap w a) \<and> file_f (heap w a) = file_name (id_f (heap w a)) \<and>
     \<not> fclosed (heap w a) \<and> writer (heap w a) \<noteq> None \<and>
     (\<forall>wr. writer (heap w a) = Some wr \<longrightarrow> werr wr = None \<longrightarrow>
        wbuf wr = [] \<and> size_f (heap w a) = int (length (contents w (file_f (heap w a)))))"

lemma broken_wf_active:
  "wf_active w a \<Longrightarrow> frame a w w1 \<Longrightarrow> broken w1 a \<Longrightarrow> wf_active w1 a"
  by (auto simp: wf_active_def frame_def broken_def)

lemma wf_active_script [simp]: "wf_active (w\<lparr>script := s\<rparr>) a = wf_active w a"
  by (simp add: wf_active_def contents_def)

lemma writer_Write_Some: "writer_Write w p bs = (w1, Some e) \<Longrightarrow> broken w1 p"
  by (cases w rule: next_io_cases)
    (auto simp: writer_Write_def broken_def set_file_def append_file_def split: option.splits)

lemma writer_Flush_Some: "writer_Flush w p = (w1, Some e) \<Longrightarrow> broken w1 p"
  by (cases w rule: next_io_cases)
    (auto simp: writer_Flush_def broken_def set_file_def append_file_def
      split: option.splits if_splits)

lemma LogFile_Write_Inl:
  assumes "LogFile_Write w p e = (w1, Inl er)" and "\<not> readOnly (heap w p)"
  shows "broken w1 p"
proof -
  obtain wa ra where s1: "writer_Write w p (PutUint32 (Timestamp e)) = (wa, ra)" by force
  obtain wb rb where s2: "writer_Write wa p (PutUint32 (KeySize e)) = (wb, rb)" by force
  obtain wc rc where s3: "writer_Write wb p (PutUint32 (ValueSize e)) = (wc, rc)" by force
  obtain wd rd where s4: "writer_Write wc p (Key e) = (wd, rd)" by force
  obtain we re where s5: "writer_Write wd p (Value e) = (we, re)" by force
  from assms s1 s2 s3 s4 s5 show ?thesis
    using writer_Write_Some [OF _] 
    by (auto simp: LogFile_Write_def Let_def split: option.splits dest: writer_Write_Some)
qed

text \<open>A record appended and flushed: what Put and Delete do to the active file.\<close>

lemma append_ok:
  assumes wf: "wf_active w a"
    and wr: "LogFile_Write w a e = (w2, Inr vp)"
    and fl: "sync_or_flush w2 bc a = (w3, None)"
  shows "\<exists>s. w3 = w\<lparr>script := s,
                disk := AList.update (file_f (heap w a))
                          (contents w (file_f (heap w a)) @ encode e) (disk w),
                heap := (heap w)(a := (heap w a)\<lparr>size_f := size_f (heap w a) + int (length (encode e))\<rparr>)\<rparr>"
    and "vp = length (contents w (file_f (heap w a))) + 12 + length (Key e)"
    and "wf_active w3 a"
proof -
  let ?f = "file_f (heap w a)"
  from wr obtain wr0 s where w0: "writer (heap w a) = Some wr0" and e0: "werr wr0 = None"
    and vp: "vp = nat (size_f (heap w a) + 12 + int (length (Key e)))"
    and w2: "w2 = w\<lparr>script := s, heap := (heap w)(a := (heap w a)\<lparr>
             writer := Some (wr0\<lparr>wbuf := wbuf wr0 @ encode e\<rparr>),
             size_f := size_f (heap w a) + int (length (encode e))\<rparr>)\<rparr>"
    by (rule LogFile_Write_Inr)
  from wf w0 e0 have b0: "wbuf wr0 = []"
    and sz: "size_f (heap w a) = int (length (contents w ?f))"
    and ro: "\<not> readOnly (heap w a)"
    by (auto simp: wf_active_def)
  have ne: "encode e \<noteq> []" by (simp add: encode_def PutUint32_def)
  have w2wr: "writer (heap w2 a) = Some (wr0\<lparr>wbuf := encode e\<rparr>)"
    using w2 b0 by simp
  have ro2: "\<not> readOnly (heap w2 a)" using w2 ro by simp
  from fl w2wr ne ro2 obtain s' where
    w3: "w3 = w2\<lparr>script := s',
                disk := AList.update (file_f (heap w2 a))
                          (contents w2 (file_f (heap w2 a)) @ wbuf (wr0\<lparr>wbuf := encode e\<rparr>)) (disk w2),
                heap := (heap w2)(a := (heap w2 a)\<lparr>writer := Some ((wr0\<lparr>wbuf := encode e\<rparr>)\<lparr>wbuf := []\<rparr>)\<rparr>)\<rparr>"
    by (auto elim!: sync_or_flush_None)
  have wr0': "wr0\<lparr>wbuf := []\<rparr> = wr0" using b0 by simp
  have lf: "(heap w a)\<lparr>size_f := n, writer := Some wr0\<rparr> = (heap w a)\<lparr>size_f := n\<rparr>" for n
    by (rule LogFile.equality) (simp_all add: w0)
  have eq: "w3 = w\<lparr>script := s',
                disk := AList.update ?f (contents w ?f @ encode e) (disk w),
                heap := (heap w)(a := (heap w a)\<lparr>size_f := size_f (heap w a) + int (length (encode e))\<rparr>)\<rparr>"
    using w3 w2 wr0' lf by (simp add: contents_def)
  then show "\<exists>s. w3 = w\<lparr>script := s,
                disk := AList.update ?f (contents w ?f @ encode e) (disk w),
                heap := (heap w)(a := (heap w a)\<lparr>size_f := size_f (heap w a) + int (length (encode e))\<rparr>)\<rparr>"
    by blast
  show "vp = length (contents w ?f) + 12 + length (Key e)"
    using vp sz by simp
  show "wf_active w3 a"
    using wf w0 e0 b0 sz unfolding eq
    by (simp add: wf_active_def contents_def update_conv')
qed

lemma append_any:
  assumes wf: "wf_active w a"
    and wr: "LogFile_Write w a e = (w2, r2)"
  shows "frame a w w2"
    and "\<And>er. r2 = Inl er \<Longrightarrow> wf_active w2 a"
    and "\<And>vp w3 r3. r2 = Inr vp \<Longrightarrow> sync_or_flush w2 bc a = (w3, r3) \<Longrightarrow>
           frame a w w3 \<and> wf_active w3 a"
proof -
  show f2: "frame a w w2" using wr by (rule LogFile_Write_frame)
  from wf have ro: "\<not> readOnly (heap w a)" by (simp add: wf_active_def)
  {
    fix er assume "r2 = Inl er"
    with wr ro have "broken w2 a" by (auto dest: LogFile_Write_Inl)
    with wf f2 show "wf_active w2 a" by (rule broken_wf_active)
  }
  {
    fix vp w3 r3
    assume r2: "r2 = Inr vp" and fl: "sync_or_flush w2 bc a = (w3, r3)"
    have f3: "frame a w w3" using f2 sync_or_flush_frame [OF fl] by (rule frame_trans)
    show "frame a w w3 \<and> wf_active w3 a"
    proof (cases r3)
      case None
      with wf wr r2 fl have "wf_active w3 a" by (auto dest: append_ok(3))
      with f3 show ?thesis by simp
    next
      case (Some er)
      from wr r2 obtain wr0 s where w0: "writer (heap w a) = Some wr0" and e0: "werr wr0 = None"
        and w2: "w2 = w\<lparr>script := s, heap := (heap w)(a := (heap w a)\<lparr>
             writer := Some (wr0\<lparr>wbuf := wbuf wr0 @ encode e\<rparr>),
             size_f := size_f (heap w a) + int (length (encode e))\<rparr>)\<rparr>"
        by (auto elim!: LogFile_Write_Inr)
      from wf w0 e0 have b0: "wbuf wr0 = []"
        and sz: "size_f (heap w a) = int (length (contents w (file_f (heap w a))))"
        by (auto simp: wf_active_def)
      have ne: "encode e \<noteq> []" by (simp add: encode_def PutUint32_def)
      have w2wr: "writer (heap w2 a) = Some (wr0\<lparr>wbuf := encode e\<rparr>)"
        using w2 b0 by simp
      have ro2: "\<not> readOnly (heap w2 a)" using w2 ro by simp
      show ?thesis
      proof (cases "SyncWrites (config bc)")
        case False
        with fl Some ro2 w2wr have "\<exists>x. writer_Flush w2 a = (w3, Some x)"
          by (auto simp: sync_or_flush_def LogFile_Flush_def split: prod.splits option.splits)
        then have "broken w3 a" by (auto dest: writer_Flush_Some)
        with wf f3 show ?thesis by (auto intro: broken_wf_active)
      next
        case True
        obtain wf2 rf where flu: "writer_Flush w2 a = (wf2, rf)" by force
        show ?thesis
        proof (cases rf)
          case (Some x)
          with fl True flu ro2 have "w3 = wf2"
            by (auto simp: sync_or_flush_def LogFile_Sync_def split: prod.splits option.splits)
          moreover have "broken wf2 a" using flu Some by (auto dest: writer_Flush_Some)
          ultimately show ?thesis using wf f3 by (auto intro: broken_wf_active)
        next
          case None
          with flu w2wr ne obtain s' where
            wf2: "wf2 = w2\<lparr>script := s',
                disk := AList.update (file_f (heap w2 a))
                          (contents w2 (file_f (heap w2 a)) @ wbuf (wr0\<lparr>wbuf := encode e\<rparr>)) (disk w2),
                heap := (heap w2)(a := (heap w2 a)\<lparr>writer := Some ((wr0\<lparr>wbuf := encode e\<rparr>)\<lparr>wbuf := []\<rparr>)\<rparr>)\<rparr>"
            by (auto elim!: writer_Flush_None)
          obtain ws rs where sy: "file_Sync wf2 a = (ws, rs)" by force
          from fl True flu None ro2 sy have w3: "w3 = ws"
            by (auto simp: sync_or_flush_def LogFile_Sync_def split: prod.splits option.splits)
          have "\<exists>s''. ws = wf2\<lparr>script := s''\<rparr> \<or> ws = wf2"
            using sy by (cases wf2 rule: next_io_cases) (auto simp: file_Sync_def split: if_splits)
          then obtain s'' where ws: "ws = wf2\<lparr>script := s''\<rparr> \<or> ws = wf2" by blast
          have "wf_active wf2 a"
            using wf w0 e0 b0 sz unfolding wf2 w2
            by (simp add: wf_active_def contents_def update_conv')
          with ws w3 have "wf_active w3 a" by auto
          with f3 show ?thesis by simp
        qed
      qed
    qed
  }
qed

subsection \<open>The steps of Put and Delete\<close>

definition rotate_if_full :: "world \<Rightarrow> Bitcask \<Rightarrow> nat \<Rightarrow> world \<times> Bitcask \<times> error option" where
  "rotate_if_full w bc a0 =
     (if size_f (heap w a0) \<ge> MaxFileSize (config bc) then rotateActiveFile w bc
      else (w, bc, None))"

definition put_entry :: "world \<Rightarrow> key \<Rightarrow> byte list \<Rightarrow> LogEntry" where
  "put_entry w k v =
     \<lparr>Timestamp = word_of_int (clock w), KeySize = of_nat (length k),
      ValueSize = of_nat (length v), Key = k, Value = v\<rparr>"

lemma Put_cases [consumes 1, case_names no_active rotation_failed no_active' write_failed
    flush_failed ok]:
  assumes "Put w bc k v = (w1, bc1, r)"
  obtains "activeFile bc = None" "w1 = w" "bc1 = bc" "r = Some ErrNilPointer"
  | a0 e where "activeFile bc = Some a0" "rotate_if_full w bc a0 = (w1, bc1, Some e)"
      "r = Some (Wrapped ''failed to rotate active file'' e)"
  | a0 where "activeFile bc = Some a0" "rotate_if_full w bc a0 = (w1, bc1, None)"
      "activeFile bc1 = None" "r = Some ErrNilPointer"
  | a0 wr a e where "activeFile bc = Some a0" "rotate_if_full w bc a0 = (wr, bc1, None)"
      "activeFile bc1 = Some a" "LogFile_Write wr a (put_entry wr k v) = (w1, Inl e)"
      "r = Some (Wrapped ''failed to write entry'' e)"
  | a0 wr a w2 vp e where "activeFile bc = Some a0" "rotate_if_full w bc a0 = (wr, bc1, None)"
      "activeFile bc1 = Some a" "LogFile_Write wr a (put_entry wr k v) = (w2, Inr vp)"
      "sync_or_flush w2 bc1 a = (w1, Some e)" "r = Some e"
  | a0 wr bcr a w2 vp where "activeFile bc = Some a0" "rotate_if_full w bc a0 = (wr, bcr, None)"
      "activeFile bcr = Some a" "LogFile_Write wr a (put_entry wr k v) = (w2, Inr vp)"
      "sync_or_flush w2 bcr a = (w1, None)" "r = None"
      "bc1 = bcr\<lparr>keyDir := (keyDir bcr)(k \<mapsto>
                \<lparr>FileID = id_f (heap w1 a), ValueSize_k = of_nat (length v),
                 ValuePos = vp, Timestamp_k = word_of_int (clock wr)\<rparr>)\<rparr>"
proof (cases "activeFile bc")
  case None
  with assms have "w1 = w \<and> bc1 = bc \<and> r = Some ErrNilPointer"
    by (auto simp add: Put_def)
  with None show ?thesis using that(1) by blast
next
  case (Some a0)
  note a0 = this
  obtain wr bcr rr where rot: "rotate_if_full w bc a0 = (wr, bcr, rr)" by (metis prod_cases3)
  then have rot': "(if size_f (heap w a0) \<ge> MaxFileSize (config bc) then rotateActiveFile w bc
      else (w, bc, None)) = (wr, bcr, rr)" by (simp add: rotate_if_full_def)
  have unf: "Put w bc k v =
     (case (wr, bcr, rr) of
        (w1, bc1, Some e) \<Rightarrow> (w1, bc1, Some (Wrapped ''failed to rotate active file'' e))
      | (w1, bc1, None) \<Rightarrow>
     (case activeFile bc1 of
        None \<Rightarrow> (w1, bc1, Some ErrNilPointer)
      | Some a \<Rightarrow>
      (case LogFile_Write w1 a (put_entry w1 k v) of
        (w2, Inl e) \<Rightarrow> (w2, bc1, Some (Wrapped ''failed to write entry'' e))
      | (w2, Inr valuePos) \<Rightarrow>
     (case sync_or_flush w2 bc1 a of
        (w3, Some e) \<Rightarrow> (w3, bc1, Some e)
      | (w3, None) \<Rightarrow>
          (w3, bc1\<lparr>keyDir := (keyDir bc1)(k \<mapsto>
                    \<lparr>FileID = id_f (heap w3 a), ValueSize_k = of_nat (length v),
                     ValuePos = valuePos, Timestamp_k = word_of_int (clock w1)\<rparr>)\<rparr>, None)))))"
    unfolding Put_def put_entry_def Let_def a0 option.case rot' LogEntry.simps ..
  show ?thesis
  proof (cases rr)
    case (Some e)
    with assms unf have "w1 = wr \<and> bc1 = bcr \<and> r = Some (Wrapped ''failed to rotate active file'' e)"
      by auto
    with a0 rot Some show ?thesis using that(2) by blast
  next
    case None
    note rr = this
    show ?thesis
    proof (cases "activeFile bcr")
      case None
      with assms unf rr have "w1 = wr \<and> bc1 = bcr \<and> r = Some ErrNilPointer"
        by auto
      with a0 rot rr None show ?thesis using that(3) by blast
    next
      case (Some a)
      note a = this
      obtain w2 r2 where wr: "LogFile_Write wr a (put_entry wr k v) = (w2, r2)" by force
      show ?thesis
      proof (cases r2)
        case (Inl e)
        with assms unf rr a wr have "w1 = w2 \<and> bc1 = bcr \<and> r = Some (Wrapped ''failed to write entry'' e)"
          by auto
        with a0 rot rr a wr Inl show ?thesis using that(4) by blast
      next
        case (Inr vp)
        obtain w3 r3 where fl: "sync_or_flush w2 bcr a = (w3, r3)" by force
        show ?thesis
        proof (cases r3)
          case (Some e)
          with assms unf rr a wr Inr fl have "w1 = w3 \<and> bc1 = bcr \<and> r = Some e"
            by auto
          with a0 rot rr a wr Inr fl Some show ?thesis using that(5) by blast
        next
          case None
          with assms unf rr a wr Inr fl have "w1 = w3 \<and> r = None \<and>
            bc1 = bcr\<lparr>keyDir := (keyDir bcr)(k \<mapsto>
                \<lparr>FileID = id_f (heap w3 a), ValueSize_k = of_nat (length v),
                 ValuePos = vp, Timestamp_k = word_of_int (clock wr)\<rparr>)\<rparr>"
            by auto
          with a0 rot rr a wr Inr fl None show ?thesis using that(6) by blast
        qed
      qed
    qed
  qed
qed

definition delete_entry :: "world \<Rightarrow> key \<Rightarrow> LogEntry" where
  "delete_entry w k =
     \<lparr>Timestamp = word_of_int (clock w), KeySize = of_nat (length k),
      ValueSize = 0, Key = k, Value = []\<rparr>"

lemma Delete_cases [consumes 1, case_names not_found no_active write_failed flush_failed ok]:
  assumes "Delete w bc k = (w1, bc1, r)"
  obtains "keyDir bc k = None" "w1 = w" "bc1 = bc" "r = Some (KeyNotFound k)"
  | old where "keyDir bc k = Some old" "activeFile bc = None" "w1 = w" "bc1 = bc"
      "r = Some ErrNilPointer"
  | old a e where "keyDir bc k = Some old" "activeFile bc = Some a"
      "LogFile_Write w a (delete_entry w k) = (w1, Inl e)" "bc1 = bc"
      "r = Some (Wrapped ''failed to write tombstone'' e)"
  | old a w2 vp e where "keyDir bc k = Some old" "activeFile bc = Some a"
      "LogFile_Write w a (delete_entry w k) = (w2, Inr vp)"
      "sync_or_flush w2 bc a = (w1, Some e)" "bc1 = bc" "r = Some e"
  | old a w2 vp where "keyDir bc k = Some old" "activeFile bc = Some a"
      "LogFile_Write w a (delete_entry w k) = (w2, Inr vp)"
      "sync_or_flush w2 bc a = (w1, None)" "bc1 = bc\<lparr>keyDir := (keyDir bc)(k := None)\<rparr>"
      "r = None"
proof (cases "keyDir bc k")
  case None
  with assms have "w1 = w \<and> bc1 = bc \<and> r = Some (KeyNotFound k)"
    by (auto simp add: Delete_def)
  with None show ?thesis using that(1) by blast
next
  case (Some old)
  note kd = this
  show ?thesis
  proof (cases "activeFile bc")
    case None
    with assms kd have "w1 = w \<and> bc1 = bc \<and> r = Some ErrNilPointer"
      by (auto simp add: Delete_def)
    with kd None show ?thesis using that(2) by blast
  next
    case (Some a)
    note a = this
    have unf: "Delete w bc k =
      (case LogFile_Write w a (delete_entry w k) of
        (w1, Inl e) \<Rightarrow> (w1, bc, Some (Wrapped ''failed to write tombstone'' e))
      | (w1, Inr valuePos) \<Rightarrow>
     (case sync_or_flush w1 bc a of
        (w2, Some e) \<Rightarrow> (w2, bc, Some e)
      | (w2, None) \<Rightarrow> (w2, bc\<lparr>keyDir := (keyDir bc)(k := None)\<rparr>, None)))"
      unfolding Delete_def delete_entry_def Let_def kd a option.case ..
    obtain w2 r2 where wr: "LogFile_Write w a (delete_entry w k) = (w2, r2)" by force
    show ?thesis
    proof (cases r2)
      case (Inl e)
      with assms unf wr have "w1 = w2 \<and> bc1 = bc \<and> r = Some (Wrapped ''failed to write tombstone'' e)"
        by auto
      with kd a wr Inl show ?thesis using that(3) by blast
    next
      case (Inr vp)
      obtain w3 r3 where fl: "sync_or_flush w2 bc a = (w3, r3)" by force
      show ?thesis
      proof (cases r3)
        case (Some e)
        with assms unf wr Inr fl have "w1 = w3 \<and> bc1 = bc \<and> r = Some e" by auto
        with kd a wr Inr fl Some show ?thesis using that(4) by blast
      next
        case None
        with assms unf wr Inr fl have "w1 = w3 \<and> bc1 = bc\<lparr>keyDir := (keyDir bc)(k := None)\<rparr> \<and> r = None"
          by auto
        with kd a wr Inr fl None show ?thesis using that(5) by blast
      qed
    qed
  qed
qed

end
